theory Spec2Isabelle
  imports Complex_Main "HOL-Library.Multiset"
begin

section \<open>Data model\<close>

text \<open>
  The affine sampling pipeline of \<^verbatim>\<open>src/locnet.py\<close>: \<^verbatim>\<open>get_pixel_value\<close>,
  \<^verbatim>\<open>affine_grid_generator\<close>, \<^verbatim>\<open>bilinear_sampler\<close> and the last lines of
  \<^verbatim>\<open>LocNet.call\<close>. Tensors are nested lists, outermost axis first. The element type
  \<^verbatim>\<open>float32\<close> is idealised as \<^typ>\<open>real\<close> (exact arithmetic) and \<^verbatim>\<open>int32\<close> as
  \<^typ>\<open>int\<close>: rounding and the overflow of a float-to-int cast are outside the model. Where a
  theorem gives the value of an arithmetic result, it is the value in exact arithmetic;
  the theorems on sampling outside the image speak of indices, weights and gathered
  pixels only, and give no value of a sum of products.
  An image batch has layout (B, H, W, C); a coordinate tensor has layout (B, H, W).
\<close>

type_synonym image = "real list list list"
type_synonym image_batch = "image list"
type_synonym 'a tensor3 = "'a list list list"

text \<open>One 2x3 affine matrix, row by row; \<^verbatim>\<open>theta\<close> is a list of them (num_batch, 2, 3).\<close>

type_synonym affine = "(real \<times> real \<times> real) \<times> (real \<times> real \<times> real)"

text \<open>
  Both failures the pipeline can meet are TensorFlow's \<^verbatim>\<open>InvalidArgumentError\<close>:
  \<^verbatim>\<open>tf.stack\<close> on tensors of different shapes, and \<^verbatim>\<open>tf.gather_nd\<close> on an index
  outside the tensor.
\<close>

datatype error = ShapeMismatch | IndexOutOfBounds

text \<open>
  \<^verbatim>\<open>tf.shape(img)[1]\<close> and \<^verbatim>\<open>tf.shape(img)[2]\<close>. A nested list keeps no shape when an
  outer axis is empty; the value chosen there is 0, and is never observed: with no batch
  element or no row there is no pixel to read.
\<close>

definition img_height :: "image_batch \<Rightarrow> nat" where
  "img_height img = (case img of [] \<Rightarrow> 0 | im # _ \<Rightarrow> length im)"

definition img_width :: "image_batch \<Rightarrow> nat" where
  "img_width img =
     (case img of [] \<Rightarrow> 0 | im # _ \<Rightarrow> (case im of [] \<Rightarrow> 0 | row # _ \<Rightarrow> length row))"

text \<open>The shape of a rank-3 tensor below its batch axis, as far as a nested list has one.\<close>

definition shape3 :: "'a tensor3 \<Rightarrow> nat list list" where
  "shape3 t = map (map length) t"

text \<open>Elementwise operations on rank-3 tensors.\<close>

definition tmap :: "('a \<Rightarrow> 'b) \<Rightarrow> 'a tensor3 \<Rightarrow> 'b tensor3" where
  "tmap f t = map (map (map f)) t"

definition tmap2 :: "('a \<Rightarrow> 'b \<Rightarrow> 'c) \<Rightarrow> 'a tensor3 \<Rightarrow> 'b tensor3 \<Rightarrow> 'c tensor3" where
  "tmap2 f s t = map2 (map2 (map2 f)) s t"

section \<open>get_pixel_value\<close>

text \<open>A list of results is a result: the first error wins.\<close>

fun sequence :: "(error + 'a) list \<Rightarrow> error + 'a list" where
  "sequence [] = Inr []"
| "sequence (r # rs) =
     (case r of
        Inl e \<Rightarrow> Inl e
      | Inr v \<Rightarrow> (case sequence rs of Inl e \<Rightarrow> Inl e | Inr vs \<Rightarrow> Inr (v # vs)))"

text \<open>
  One read of \<^verbatim>\<open>tf.gather_nd(img, indices)\<close> at the index triple \<^verbatim>\<open>[b, y, x]\<close>: the
  channel vector \<^verbatim>\<open>img[b, y, x, :]\<close>, or the error the CPU kernel raises for an index
  outside the tensor (a negative index is outside).
\<close>

definition gather_at :: "image_batch \<Rightarrow> nat \<times> int \<times> int \<Rightarrow> error + real list" where
  "gather_at img idx =
     (case idx of (b, y, x) \<Rightarrow>
        if b < length img \<and> 0 \<le> y \<and> nat y < length (img ! b)
           \<and> 0 \<le> x \<and> nat x < length (img ! b ! nat y)
        then Inr (img ! b ! nat y ! nat x)
        else Inl IndexOutOfBounds)"

definition gather_nd :: "image_batch \<Rightarrow> (nat \<times> int \<times> int) tensor3 \<Rightarrow> error + image_batch" where
  "gather_nd img indices =
     sequence (map (\<lambda>plane. sequence (map (\<lambda>row. sequence (map (gather_at img) row)) plane))
       indices)"

text \<open>
  \<^verbatim>\<open>get_pixel_value(img, x, y)\<close>: the batch index of every output pixel is its position
  on the outermost axis of \<^verbatim>\<open>x\<close>; \<^verbatim>\<open>tf.stack([b, y, x], 3)\<close> needs the three tensors
  to have one shape.
\<close>

definition get_pixel_value :: "image_batch \<Rightarrow> int tensor3 \<Rightarrow> int tensor3 \<Rightarrow> error + image_batch" where
  "get_pixel_value img x y =
     (let batch_size = length x;
          batch_idx = [0..<batch_size];
          b = map2 (\<lambda>i plane. map (map (\<lambda>_. i)) plane) batch_idx x
      in if shape3 y \<noteq> shape3 x then Inl ShapeMismatch
         else gather_nd img (tmap2 (\<lambda>bi (yi, xi). (bi, yi, xi)) b (tmap2 Pair y x)))"

section \<open>affine_grid_generator\<close>

text \<open>
  \<^verbatim>\<open>tf.linspace(start, stop, num)\<close>: \<^verbatim>\<open>num\<close> evenly spaced values, the first at
  \<^verbatim>\<open>start\<close>; a single value is \<^verbatim>\<open>start\<close>.
\<close>

definition linspace :: "real \<Rightarrow> real \<Rightarrow> nat \<Rightarrow> real list" where
  "linspace start stop num =
     map (\<lambda>i. start + real i * ((stop - start) / real (max (num - 1) 1))) [0..<num]"

text \<open>\<^verbatim>\<open>tf.meshgrid(x, y)\<close> with the default \<^verbatim>\<open>xy\<close> indexing: both results have shape
  (len y, len x).\<close>

definition meshgrid :: "real list \<Rightarrow> real list \<Rightarrow> real list list \<times> real list list" where
  "meshgrid x y = (map (\<lambda>_. x) y, map (\<lambda>v. map (\<lambda>_. v) x) y)"

text \<open>\<^verbatim>\<open>tf.matmul\<close> of one 2x3 matrix with a 3xN matrix.\<close>

definition matmul :: "affine \<Rightarrow> real list list \<Rightarrow> real list list" where
  "matmul th g =
     (case th of ((a, b, c), (d, e, f)) \<Rightarrow>
        [map (\<lambda>n. a * g ! 0 ! n + b * g ! 1 ! n + c * g ! 2 ! n) [0..<length (g ! 0)],
         map (\<lambda>n. d * g ! 0 ! n + e * g ! 1 ! n + f * g ! 2 ! n) [0..<length (g ! 0)]])"

text \<open>\<^verbatim>\<open>tf.reshape\<close> of a vector of \<^verbatim>\<open>height * width\<close> values to (height, width).\<close>

definition reshape :: "nat \<Rightarrow> nat \<Rightarrow> real list \<Rightarrow> real list list" where
  "reshape height width v = map (\<lambda>i. take width (drop (i * width) v)) [0..<height]"

definition affine_grid_generator :: "nat \<Rightarrow> nat \<Rightarrow> affine list \<Rightarrow> real list list list list" where
  "affine_grid_generator height width theta =
     (let num_batch = length theta;
          x = linspace (-1) 1 width;
          y = linspace (-1) 1 height;
          (x_t, y_t) = meshgrid x y;
          x_t_flat = concat x_t;
          y_t_flat = concat y_t;
          ones = map (\<lambda>_. 1) x_t_flat;
          sampling_grid = [x_t_flat, y_t_flat, ones];
          sampling_grid = replicate num_batch sampling_grid;
          batch_grids = map2 matmul theta sampling_grid;
          batch_grids = map (map (reshape height width)) batch_grids
      in batch_grids)"

section \<open>bilinear_sampler\<close>

text \<open>\<^verbatim>\<open>tf.clip_by_value(t, lo, hi)\<close> is \<^verbatim>\<open>maximum(minimum(t, hi), lo)\<close>.\<close>

definition clip_by_value :: "int \<Rightarrow> int \<Rightarrow> int \<Rightarrow> int" where
  "clip_by_value t lo hi = max (min t hi) lo"

text \<open>
  Lines 167 and 168: the rescale of one normalized coordinate, given \<^verbatim>\<open>max_x\<close>
  (or \<^verbatim>\<open>max_y\<close>), which is the dimension minus one.
\<close>

definition rescale :: "int \<Rightarrow> real \<Rightarrow> real" where
  "rescale max_d v = 0.5 * ((v + 1.0) * real_of_int (max_d - 1))"

text \<open>
  Lines 158 to 180: the rescaled coordinates and the four clipped corner index tensors.
\<close>

record corners =
  xs :: "real tensor3"
  ys :: "real tensor3"
  x0 :: "int tensor3"
  x1 :: "int tensor3"
  y0 :: "int tensor3"
  y1 :: "int tensor3"

definition sampler_corners :: "image_batch \<Rightarrow> real tensor3 \<Rightarrow> real tensor3 \<Rightarrow> corners" where
  "sampler_corners img x y =
     (let H = int (img_height img);
          W = int (img_width img);
          max_y = H - 1;
          max_x = W - 1;
          zero = 0;
          x = tmap (rescale max_x) x;
          y = tmap (rescale max_y) y;
          x0 = tmap floor x;
          x1 = tmap (\<lambda>v. v + 1) x0;
          y0 = tmap floor y;
          y1 = tmap (\<lambda>v. v + 1) y0;
          x0 = tmap (\<lambda>v. clip_by_value v zero max_x) x0;
          x1 = tmap (\<lambda>v. clip_by_value v zero max_x) x1;
          y0 = tmap (\<lambda>v. clip_by_value v zero max_y) y0;
          y1 = tmap (\<lambda>v. clip_by_value v zero max_y) y1
      in \<lparr>xs = x, ys = y, x0 = x0, x1 = x1, y0 = y0, y1 = y1\<rparr>)"

text \<open>Lines 189 to 198: the four weight tensors, from the clipped corners.\<close>

record weights =
  wa :: "real tensor3"
  wb :: "real tensor3"
  wc :: "real tensor3"
  wd :: "real tensor3"

definition sampler_weights :: "corners \<Rightarrow> weights" where
  "sampler_weights c =
     (let x = xs c; y = ys c;
          x0 = tmap real_of_int (x0 c);
          x1 = tmap real_of_int (x1 c);
          y0 = tmap real_of_int (y0 c);
          y1 = tmap real_of_int (y1 c);
          wa = tmap2 (*) (tmap2 (-) x1 x) (tmap2 (-) y1 y);
          wb = tmap2 (*) (tmap2 (-) x1 x) (tmap2 (-) y y0);
          wc = tmap2 (*) (tmap2 (-) x x0) (tmap2 (-) y1 y);
          wd = tmap2 (*) (tmap2 (-) x x0) (tmap2 (-) y y0)
      in \<lparr>wa = wa, wb = wb, wc = wc, wd = wd\<rparr>)"

text \<open>
  \<^verbatim>\<open>w * I\<close> after \<^verbatim>\<open>tf.expand_dims(w, axis=3)\<close>: the weight of a pixel multiplies
  each of its channels. \<^verbatim>\<open>tf.add_n\<close> of four tensors adds them elementwise.
\<close>

definition weighted :: "real tensor3 \<Rightarrow> image_batch \<Rightarrow> image_batch" where
  "weighted w I = tmap2 (\<lambda>wi px. map (\<lambda>v. wi * v) px) w I"

definition add_n4 :: "image_batch \<Rightarrow> image_batch \<Rightarrow> image_batch \<Rightarrow> image_batch \<Rightarrow> image_batch" where
  "add_n4 p q r s =
     tmap2 (map2 (+)) (tmap2 (map2 (+)) (tmap2 (map2 (+)) p q) r) s"

definition bilinear_sampler :: "image_batch \<Rightarrow> real tensor3 \<Rightarrow> real tensor3 \<Rightarrow> error + image_batch" where
  "bilinear_sampler img x y =
     (let c = sampler_corners img x y in
      (case get_pixel_value img (x0 c) (y0 c) of Inl e \<Rightarrow> Inl e | Inr I_a \<Rightarrow>
      (case get_pixel_value img (x0 c) (y1 c) of Inl e \<Rightarrow> Inl e | Inr I_b \<Rightarrow>
      (case get_pixel_value img (x1 c) (y0 c) of Inl e \<Rightarrow> Inl e | Inr I_c \<Rightarrow>
      (case get_pixel_value img (x1 c) (y1 c) of Inl e \<Rightarrow> Inl e | Inr I_d \<Rightarrow>
        (let w = sampler_weights c
         in Inr (add_n4 (weighted (wa w) I_a) (weighted (wb w) I_b)
                        (weighted (wc w) I_c) (weighted (wd w) I_d))))))))"

section \<open>LocNet.call\<close>

text \<open>
  Lines 230 to 233 of \<^verbatim>\<open>LocNet.call\<close>, with \<^verbatim>\<open>theta\<close> (the output of the
  localization network and the regressor, both Keras layers outside this model) as a
  parameter.
\<close>

definition transform :: "nat \<Rightarrow> nat \<Rightarrow> image_batch \<Rightarrow> affine list \<Rightarrow> error + image_batch" where
  "transform image_height image_width inputs theta =
     (let grid = affine_grid_generator image_height image_width theta;
          x_s = map (\<lambda>g. g ! 0) grid;
          y_s = map (\<lambda>g. g ! 1) grid
      in bilinear_sampler inputs x_s y_s)"

section \<open>Vocabulary of the properties\<close>

text \<open>
  The definitions below are not part of the program: they name the shapes, the index
  ranges and the per-pixel values the theorems speak about, and the concrete inputs of
  the examples. Each is related to the program by a lemma.
\<close>

text \<open>Index \<open>(b, i, j)\<close> is inside a rank-3 tensor.\<close>

definition in3 :: "'a tensor3 \<Rightarrow> nat \<Rightarrow> nat \<Rightarrow> nat \<Rightarrow> bool" where
  "in3 t b i j \<longleftrightarrow> b < length t \<and> i < length (t ! b) \<and> j < length (t ! b ! i)"

text \<open>The tensor \<open>b\<close> of \<^verbatim>\<open>get_pixel_value\<close>: every position holds its batch index.\<close>

definition batch_index :: "'a tensor3 \<Rightarrow> nat tensor3" where
  "batch_index x = map2 (\<lambda>i plane. map (map (\<lambda>_. i)) plane) [0..<length x] x"

text \<open>A nested list is an image batch of shape (B, H, W, C).\<close>

definition is_image_batch :: "image_batch \<Rightarrow> nat \<Rightarrow> nat \<Rightarrow> nat \<Rightarrow> nat \<Rightarrow> bool" where
  "is_image_batch img B H W C \<longleftrightarrow>
     length img = B \<and>
     (\<forall>im\<in>set img. length im = H \<and>
        (\<forall>row\<in>set im. length row = W \<and> (\<forall>px\<in>set row. length px = C)))"

text \<open>The weighted sum of four channel vectors, as \<^verbatim>\<open>tf.add_n\<close> computes it for one pixel.\<close>

definition blend ::
  "real \<Rightarrow> real list \<Rightarrow> real \<Rightarrow> real list \<Rightarrow> real \<Rightarrow> real list \<Rightarrow> real \<Rightarrow> real list \<Rightarrow> real list" where
  "blend a p b q c r d s =
     map2 (+) (map2 (+) (map2 (+) (map (\<lambda>v. a * v) p) (map (\<lambda>v. b * v) q))
       (map (\<lambda>v. c * v) r)) (map (\<lambda>v. d * v) s)"

text \<open>What a gather returns when every index is inside the image.\<close>

definition pixels :: "image_batch \<Rightarrow> int tensor3 \<Rightarrow> int tensor3 \<Rightarrow> image_batch" where
  "pixels img x y =
     tmap2 (\<lambda>b (yi, xi). img ! b ! nat yi ! nat xi) (batch_index x) (tmap2 Pair y x)"

text \<open>What the sampler returns when its four gathers succeed.\<close>

definition sampler_out :: "image_batch \<Rightarrow> real tensor3 \<Rightarrow> real tensor3 \<Rightarrow> image_batch" where
  "sampler_out img x y =
     (let c = sampler_corners img x y; w = sampler_weights c
      in add_n4 (weighted (wa w) (pixels img (x0 c) (y0 c)))
                (weighted (wb w) (pixels img (x0 c) (y1 c)))
                (weighted (wc w) (pixels img (x1 c) (y0 c)))
                (weighted (wd w) (pixels img (x1 c) (y1 c))))"

text \<open>Element \<open>k\<close> of \<^verbatim>\<open>tf.linspace(-1.0, 1.0, n)\<close>.\<close>

definition grid_coord :: "nat \<Rightarrow> nat \<Rightarrow> real" where
  "grid_coord n k = - 1 + real k * (2 / real (max (n - 1) 1))"

text \<open>The plane of x coordinates the grid generator yields for one matrix.\<close>

definition grid_x :: "nat \<Rightarrow> nat \<Rightarrow> affine \<Rightarrow> real list list" where
  "grid_x H W th =
     (case th of ((a, b, c), _) \<Rightarrow>
        map (\<lambda>i. map (\<lambda>j. a * grid_coord W j + b * grid_coord H i + c) [0..<W]) [0..<H])"

text \<open>The plane of y coordinates the grid generator yields for one matrix.\<close>

definition grid_y :: "nat \<Rightarrow> nat \<Rightarrow> affine \<Rightarrow> real list list" where
  "grid_y H W th =
     (case th of (_, (d, e, f)) \<Rightarrow>
        map (\<lambda>i. map (\<lambda>j. d * grid_coord W j + e * grid_coord H i + f) [0..<W]) [0..<H])"

text \<open>The 4x4 single-channel image with values 0..15 in row-major order, as a batch of one.\<close>

definition img4 :: image_batch where
  "img4 = [[[[0], [1], [2], [3]], [[4], [5], [6], [7]],
            [[8], [9], [10], [11]], [[12], [13], [14], [15]]]]"

text \<open>The identity transform.\<close>

definition identity_theta :: affine where
  "identity_theta = ((1, 0, 0), (0, 1, 0))"

text \<open>One output pixel of the sampler as a function of its normalized coordinates.\<close>

definition sample_px :: "image \<Rightarrow> int \<Rightarrow> int \<Rightarrow> real \<Rightarrow> real \<Rightarrow> real list" where
  "sample_px im max_x max_y u v =
     (let x = rescale max_x u; y = rescale max_y v;
          px0 = clip_by_value \<lfloor>x\<rfloor> 0 max_x; px1 = clip_by_value (\<lfloor>x\<rfloor> + 1) 0 max_x;
          py0 = clip_by_value \<lfloor>y\<rfloor> 0 max_y; py1 = clip_by_value (\<lfloor>y\<rfloor> + 1) 0 max_y
      in blend ((real_of_int px1 - x) * (real_of_int py1 - y)) (im ! nat py0 ! nat px0)
               ((real_of_int px1 - x) * (y - real_of_int py0)) (im ! nat py1 ! nat px0)
               ((x - real_of_int px0) * (real_of_int py1 - y)) (im ! nat py0 ! nat px1)
               ((x - real_of_int px0) * (y - real_of_int py0)) (im ! nat py1 ! nat px1))"


text \<open>The all-zero transform.\<close>

definition zero_theta :: affine where
  "zero_theta = ((0, 0, 0), (0, 0, 0))"

text \<open>A 3x3 single-channel image, as a batch of one.\<close>

definition img3 :: image_batch where
  "img3 = [[[[5], [6], [7]], [[8], [9], [10]], [[11], [12], [13]]]]"

text \<open>A batch of two 3x3 single-channel images.\<close>

definition img3x2 :: image_batch where
  "img3x2 = [[[[5], [6], [7]], [[8], [9], [10]], [[11], [12], [13]]],
             [[[1], [2], [3]], [[4], [5], [6]], [[7], [8], [9]]]]"

section \<open>Tensors: shapes and elementwise access\<close>

lemma in3_tmap: "in3 (tmap f t) b i j = in3 t b i j"
  by (auto simp: in3_def tmap_def)

lemma nth3_tmap: "in3 t b i j \<Longrightarrow> tmap f t ! b ! i ! j = f (t ! b ! i ! j)"
  by (simp add: in3_def tmap_def)

lemma in3_tmap2: "in3 (tmap2 f s t) b i j = (in3 s b i j \<and> in3 t b i j)"
  by (auto simp: in3_def tmap2_def)

lemma nth3_tmap2:
  "in3 s b i j \<Longrightarrow> in3 t b i j \<Longrightarrow> tmap2 f s t ! b ! i ! j = f (s ! b ! i ! j) (t ! b ! i ! j)"
  by (simp add: in3_def tmap2_def)

lemma in3_shape3:
  "in3 t b i j \<longleftrightarrow> b < length (shape3 t) \<and> i < length (shape3 t ! b) \<and> j < shape3 t ! b ! i"
  by (auto simp: in3_def shape3_def)

lemma shape3_in3: "shape3 s = shape3 t \<Longrightarrow> in3 s b i j = in3 t b i j"
  by (simp add: in3_shape3)

lemma shape3_tmap: "shape3 (tmap f t) = shape3 t"
  by (simp add: shape3_def tmap_def comp_def)

lemma shape3_eqI:
  assumes "length s = length t"
    and "\<And>b. b < length t \<Longrightarrow> length (s ! b) = length (t ! b)"
    and "\<And>b i. b < length t \<Longrightarrow> i < length (t ! b) \<Longrightarrow> length (s ! b ! i) = length (t ! b ! i)"
  shows "shape3 s = shape3 t"
  unfolding shape3_def using assms
  by (auto intro!: nth_equalityI)

lemma shape3_eqD:
  assumes "shape3 s = shape3 t"
  shows "length s = length t"
    and "b < length t \<Longrightarrow> length (s ! b) = length (t ! b)"
    and "b < length t \<Longrightarrow> i < length (t ! b) \<Longrightarrow> length (s ! b ! i) = length (t ! b ! i)"
proof -
  have m: "map (map length) s = map (map length) t"
    using assms by (simp add: shape3_def)
  show l: "length s = length t"
    using m by (rule map_eq_imp_length_eq)
  have r: "map length (s ! b) = map length (t ! b)" if "b < length t"
  proof -
    have "map (map length) s ! b = map (map length) t ! b" using m by simp
    then show ?thesis using that l by simp
  qed
  show l2: "length (s ! b) = length (t ! b)" if "b < length t"
    using r[OF that] by (rule map_eq_imp_length_eq)
  show "length (s ! b ! i) = length (t ! b ! i)" if "b < length t" "i < length (t ! b)"
  proof -
    have "map length (s ! b) ! i = map length (t ! b) ! i" using r[OF that(1)] by simp
    then show ?thesis using that l2[OF that(1)] by simp
  qed
qed

lemma shape3_tmap2: "shape3 s = shape3 t \<Longrightarrow> shape3 (tmap2 f s t) = shape3 t"
proof (rule shape3_eqI)
  assume a: "shape3 s = shape3 t"
  show "length (tmap2 f s t) = length t"
    using shape3_eqD(1)[OF a] by (simp add: tmap2_def)
  fix b assume b: "b < length t"
  then have bs: "b < length s" using shape3_eqD(1)[OF a] by simp
  show "length (tmap2 f s t ! b) = length (t ! b)"
    using b bs shape3_eqD(2)[OF a b] by (simp add: tmap2_def)
  fix i assume i: "i < length (t ! b)"
  then have "i < length (s ! b)" using shape3_eqD(2)[OF a b] by simp
  then show "length (tmap2 f s t ! b ! i) = length (t ! b ! i)"
    using b bs i shape3_eqD(3)[OF a b i] by (simp add: tmap2_def)
qed

lemma tensor3_eqI:
  assumes sh: "shape3 s = shape3 t"
    and v: "\<And>b i j. in3 t b i j \<Longrightarrow> s ! b ! i ! j = t ! b ! i ! j"
  shows "s = t"
proof (rule nth_equalityI)
  show l1: "length s = length t" by (rule shape3_eqD(1)[OF sh])
  fix b assume "b < length s"
  then have b: "b < length t" using l1 by simp
  show "s ! b = t ! b"
  proof (rule nth_equalityI)
    show l2: "length (s ! b) = length (t ! b)" by (rule shape3_eqD(2)[OF sh b])
    fix i assume "i < length (s ! b)"
    then have i: "i < length (t ! b)" using l2 by simp
    show "s ! b ! i = t ! b ! i"
    proof (rule nth_equalityI)
      show l3: "length (s ! b ! i) = length (t ! b ! i)" by (rule shape3_eqD(3)[OF sh b i])
      fix j assume "j < length (s ! b ! i)"
      then have "in3 t b i j" using l3 b i by (simp add: in3_def)
      then show "s ! b ! i ! j = t ! b ! i ! j" by (rule v)
    qed
  qed
qed

section \<open>Results of a gather\<close>

lemma sequence_Inr_map: "sequence rs = Inr vs \<longleftrightarrow> rs = map Inr vs"
proof (induction rs arbitrary: vs)
  case Nil
  then show ?case by auto
next
  case (Cons r rs)
  show ?case
  proof (cases r)
    case (Inl e)
    then show ?thesis by auto
  next
    case (Inr v)
    show ?thesis
    proof (cases "sequence rs")
      case (Inl e)
      then have "\<And>ws. rs \<noteq> map Inr ws" using Cons.IH by auto
      then show ?thesis using Inl Inr by (cases vs) auto
    next
      case r2: (Inr ws)
      then have "rs = map Inr ws" using Cons.IH by simp
      then show ?thesis using Inr r2 by (cases vs) (auto simp: inj_map_eq_map)
    qed
  qed
qed

lemma sequence_Inr_iff: "sequence rs = Inr vs \<longleftrightarrow> list_all2 (\<lambda>r v. r = Inr v) rs vs"
proof -
  have "rs = map Inr vs \<longleftrightarrow> list_all2 (=) rs (map Inr vs)"
    by (simp add: list_all2_eq)
  then show ?thesis
    by (simp add: sequence_Inr_map list_all2_map2)
qed

lemma gather_nd_Inr_iff:
  "gather_nd img ind = Inr out \<longleftrightarrow>
     list_all2 (list_all2 (list_all2 (\<lambda>idx v. gather_at img idx = Inr v))) ind out"
  by (simp add: gather_nd_def sequence_Inr_iff list_all2_map1)

lemma all3_iff:
  "list_all2 (list_all2 (list_all2 R)) s t \<longleftrightarrow>
     shape3 t = shape3 s \<and> (\<forall>b i j. in3 s b i j \<longrightarrow> R (s ! b ! i ! j) (t ! b ! i ! j))"
  (is "?L = ?R")
proof
  assume L: ?L
  have l1: "length s = length t" using L by (rule list_all2_lengthD)
  have p1: "list_all2 (list_all2 R) (s ! b) (t ! b)" if "b < length s" for b
    using L that by (rule list_all2_nthD)
  have l2: "length (s ! b) = length (t ! b)" if "b < length s" for b
    using p1[OF that] by (rule list_all2_lengthD)
  have p2: "list_all2 R (s ! b ! i) (t ! b ! i)" if "b < length s" "i < length (s ! b)" for b i
    using p1[OF that(1)] that(2) by (rule list_all2_nthD)
  have l3: "length (s ! b ! i) = length (t ! b ! i)" if "b < length s" "i < length (s ! b)" for b i
    using p2[OF that] by (rule list_all2_lengthD)
  have p3: "R (s ! b ! i ! j) (t ! b ! i ! j)" if "in3 s b i j" for b i j
    using that p2[of b i] by (auto simp: in3_def intro: list_all2_nthD)
  have "shape3 t = shape3 s"
    by (rule shape3_eqI) (simp_all add: l1 l2 l3)
  then show ?R using p3 by simp
next
  assume R: ?R
  then have sh: "shape3 t = shape3 s"
    and v: "\<And>b i j. in3 s b i j \<Longrightarrow> R (s ! b ! i ! j) (t ! b ! i ! j)" by auto
  show ?L
    unfolding list_all2_conv_all_nth
  proof (intro conjI allI impI)
    show "length s = length t" using shape3_eqD(1)[OF sh] by simp
    fix b assume b: "b < length s"
    show "length (s ! b) = length (t ! b)" using shape3_eqD(2)[OF sh b] by simp
    fix i assume i: "i < length (s ! b)"
    show "length (s ! b ! i) = length (t ! b ! i)" using shape3_eqD(3)[OF sh b i] by simp
    fix j assume "j < length (s ! b ! i)"
    then show "R (s ! b ! i ! j) (t ! b ! i ! j)" using b i by (intro v) (simp add: in3_def)
  qed
qed

lemma shape3_batch_index: "shape3 (batch_index x) = shape3 x"
  by (rule shape3_eqI) (simp_all add: batch_index_def)

lemma nth3_batch_index: "in3 x b i j \<Longrightarrow> batch_index x ! b ! i ! j = b"
  by (simp add: batch_index_def in3_def)

lemma get_pixel_value_Inr_iff:
  "get_pixel_value img x y = Inr out \<longleftrightarrow>
     shape3 y = shape3 x \<and> shape3 out = shape3 x \<and>
     (\<forall>b i j. in3 x b i j \<longrightarrow>
        gather_at img (b, y ! b ! i ! j, x ! b ! i ! j) = Inr (out ! b ! i ! j))"
proof (cases "shape3 y = shape3 x")
  case False
  then show ?thesis by (simp add: get_pixel_value_def)
next
  case True
  define yx where "yx = tmap2 Pair y x"
  define ind where "ind = tmap2 (\<lambda>bi (yi, xi). (bi, yi, xi)) (batch_index x) yx"
  have s1: "shape3 yx = shape3 x" unfolding yx_def using True by (rule shape3_tmap2)
  have s2: "shape3 ind = shape3 x"
    unfolding ind_def using shape3_tmap2[of "batch_index x" yx] s1 shape3_batch_index[of x]
    by simp
  have iy: "in3 y b i j = in3 x b i j" for b i j using True by (rule shape3_in3)
  have v: "ind ! b ! i ! j = (b, y ! b ! i ! j, x ! b ! i ! j)" if "in3 x b i j" for b i j
  proof -
    have a: "in3 yx b i j" unfolding yx_def using that iy by (simp add: in3_tmap2)
    have c: "in3 (batch_index x) b i j"
      using that by (simp add: shape3_in3[OF shape3_batch_index])
    have "yx ! b ! i ! j = (y ! b ! i ! j, x ! b ! i ! j)"
      unfolding yx_def using that iy by (simp add: nth3_tmap2)
    then show ?thesis
      unfolding ind_def using a c that by (simp add: nth3_tmap2 nth3_batch_index)
  qed
  have g: "get_pixel_value img x y = gather_nd img ind"
    using True by (simp add: get_pixel_value_def batch_index_def ind_def yx_def)
  have i2: "in3 ind b i j = in3 x b i j" for b i j using s2 by (rule shape3_in3)
  show ?thesis
    unfolding g gather_nd_Inr_iff all3_iff
    using True s2 by (auto simp: i2 v)
qed

section \<open>Image batches, corners and weights\<close>

lemma is_image_batchD:
  assumes "is_image_batch img B H W C"
  shows "length img = B"
    and "b < B \<Longrightarrow> length (img ! b) = H"
    and "b < B \<Longrightarrow> i < H \<Longrightarrow> length (img ! b ! i) = W"
    and "b < B \<Longrightarrow> i < H \<Longrightarrow> j < W \<Longrightarrow> length (img ! b ! i ! j) = C"
proof -
  show l: "length img = B" using assms by (simp add: is_image_batch_def)
  have a: "length im = H \<and> (\<forall>row\<in>set im. length row = W \<and> (\<forall>px\<in>set row. length px = C))"
    if "im \<in> set img" for im
    using assms that by (simp add: is_image_batch_def)
  show h: "length (img ! b) = H" if "b < B"
    using a[of "img ! b"] that l by simp
  have r: "length (img ! b ! i) = W \<and> (\<forall>px\<in>set (img ! b ! i). length px = C)"
    if "b < B" "i < H"
  proof -
    have "\<forall>row\<in>set (img ! b). length row = W \<and> (\<forall>px\<in>set row. length px = C)"
      using a[of "img ! b"] that l by simp
    moreover have "img ! b ! i \<in> set (img ! b)" using that h by simp
    ultimately show ?thesis by blast
  qed
  show "length (img ! b ! i) = W" if "b < B" "i < H"
    using r[OF that] by simp
  show "length (img ! b ! i ! j) = C" if "b < B" "i < H" "j < W"
    using r[OF that(1,2)] that by simp
qed

lemma img_height_eq:
  assumes "is_image_batch img B H W C" "0 < B"
  shows "img_height img = H"
proof -
  have "length img = B" and "length (img ! 0) = H"
    using is_image_batchD(1,2)[OF assms(1)] assms(2) by auto
  then show ?thesis using assms(2) by (cases img) (auto simp: img_height_def)
qed

lemma img_width_eq:
  assumes "is_image_batch img B H W C" "0 < B" "0 < H"
  shows "img_width img = W"
proof -
  have "length img = B" and "length (img ! 0) = H" and "length (img ! 0 ! 0) = W"
    using is_image_batchD(1,2,3)[OF assms(1)] assms(2,3) by auto
  then show ?thesis
    using assms(2,3) by (cases img; cases "img ! 0") (auto simp: img_width_def)
qed

lemma clip_by_value_bounds: "0 \<le> hi \<Longrightarrow> 0 \<le> clip_by_value t 0 hi \<and> clip_by_value t 0 hi \<le> hi"
  by (simp add: clip_by_value_def)

lemma corners_shape:
  "shape3 (xs (sampler_corners img x y)) = shape3 x"
  "shape3 (x0 (sampler_corners img x y)) = shape3 x"
  "shape3 (x1 (sampler_corners img x y)) = shape3 x"
  "shape3 (ys (sampler_corners img x y)) = shape3 y"
  "shape3 (y0 (sampler_corners img x y)) = shape3 y"
  "shape3 (y1 (sampler_corners img x y)) = shape3 y"
  by (simp_all add: sampler_corners_def Let_def shape3_tmap)

lemma corners_x:
  assumes "in3 x b i j"
  shows "xs (sampler_corners img x y) ! b ! i ! j = rescale (int (img_width img) - 1) (x ! b ! i ! j)"
    and "x0 (sampler_corners img x y) ! b ! i ! j =
           clip_by_value \<lfloor>rescale (int (img_width img) - 1) (x ! b ! i ! j)\<rfloor> 0 (int (img_width img) - 1)"
    and "x1 (sampler_corners img x y) ! b ! i ! j =
           clip_by_value (\<lfloor>rescale (int (img_width img) - 1) (x ! b ! i ! j)\<rfloor> + 1) 0 (int (img_width img) - 1)"
  using assms by (simp_all add: sampler_corners_def Let_def nth3_tmap in3_tmap)

lemma corners_y:
  assumes "in3 y b i j"
  shows "ys (sampler_corners img x y) ! b ! i ! j = rescale (int (img_height img) - 1) (y ! b ! i ! j)"
    and "y0 (sampler_corners img x y) ! b ! i ! j =
           clip_by_value \<lfloor>rescale (int (img_height img) - 1) (y ! b ! i ! j)\<rfloor> 0 (int (img_height img) - 1)"
    and "y1 (sampler_corners img x y) ! b ! i ! j =
           clip_by_value (\<lfloor>rescale (int (img_height img) - 1) (y ! b ! i ! j)\<rfloor> + 1) 0 (int (img_height img) - 1)"
  using assms by (simp_all add: sampler_corners_def Let_def nth3_tmap in3_tmap)

lemma corners_in3:
  "in3 (xs (sampler_corners img x y)) b i j = in3 x b i j"
  "in3 (x0 (sampler_corners img x y)) b i j = in3 x b i j"
  "in3 (x1 (sampler_corners img x y)) b i j = in3 x b i j"
  "in3 (ys (sampler_corners img x y)) b i j = in3 y b i j"
  "in3 (y0 (sampler_corners img x y)) b i j = in3 y b i j"
  "in3 (y1 (sampler_corners img x y)) b i j = in3 y b i j"
  by (simp_all add: shape3_in3[OF corners_shape(1)] shape3_in3[OF corners_shape(2)]
      shape3_in3[OF corners_shape(3)] shape3_in3[OF corners_shape(4)]
      shape3_in3[OF corners_shape(5)] shape3_in3[OF corners_shape(6)])

lemma weights_nth:
  assumes "in3 x b i j" "in3 y b i j"
    and c: "c = sampler_corners img x y"
    and w: "w = sampler_weights c"
  shows "wa w ! b ! i ! j =
           (real_of_int (x1 c ! b ! i ! j) - xs c ! b ! i ! j) * (real_of_int (y1 c ! b ! i ! j) - ys c ! b ! i ! j)"
    and "wb w ! b ! i ! j =
           (real_of_int (x1 c ! b ! i ! j) - xs c ! b ! i ! j) * (ys c ! b ! i ! j - real_of_int (y0 c ! b ! i ! j))"
    and "wc w ! b ! i ! j =
           (xs c ! b ! i ! j - real_of_int (x0 c ! b ! i ! j)) * (real_of_int (y1 c ! b ! i ! j) - ys c ! b ! i ! j)"
    and "wd w ! b ! i ! j =
           (xs c ! b ! i ! j - real_of_int (x0 c ! b ! i ! j)) * (ys c ! b ! i ! j - real_of_int (y0 c ! b ! i ! j))"
  using assms(1,2) unfolding w c
  by (simp_all add: sampler_weights_def Let_def nth3_tmap2 nth3_tmap in3_tmap2 in3_tmap corners_in3)

lemma weights_shape:
  assumes "shape3 y = shape3 x"
  shows "shape3 (wa (sampler_weights (sampler_corners img x y))) = shape3 x"
    and "shape3 (wb (sampler_weights (sampler_corners img x y))) = shape3 x"
    and "shape3 (wc (sampler_weights (sampler_corners img x y))) = shape3 x"
    and "shape3 (wd (sampler_weights (sampler_corners img x y))) = shape3 x"
  using assms
  by (simp_all add: sampler_weights_def Let_def shape3_tmap2 shape3_tmap corners_shape)

section \<open>The sampler on well-shaped inputs\<close>

lemma pixels_shape: "shape3 y = shape3 x \<Longrightarrow> shape3 (pixels img x y) = shape3 x"
  unfolding pixels_def
  using shape3_tmap2[of "batch_index x" "tmap2 Pair y x"] shape3_tmap2[of y x Pair]
    shape3_batch_index[of x]
  by simp

lemma pixels_nth:
  assumes sh: "shape3 y = shape3 x" and r: "in3 x b i j"
  shows "pixels img x y ! b ! i ! j = img ! b ! nat (y ! b ! i ! j) ! nat (x ! b ! i ! j)"
proof -
  define yx where "yx = tmap2 Pair y x"
  have iy: "in3 y b i j" using r shape3_in3[OF sh] by simp
  have a: "in3 yx b i j" unfolding yx_def using r iy by (simp add: in3_tmap2)
  have c: "in3 (batch_index x) b i j"
    using r by (simp add: shape3_in3[OF shape3_batch_index])
  have "yx ! b ! i ! j = (y ! b ! i ! j, x ! b ! i ! j)"
    unfolding yx_def using r iy by (simp add: nth3_tmap2)
  then have "tmap2 (\<lambda>b (yi, xi). img ! b ! nat yi ! nat xi) (batch_index x) yx ! b ! i ! j
      = img ! b ! nat (y ! b ! i ! j) ! nat (x ! b ! i ! j)"
    using a c r by (simp add: nth3_tmap2 nth3_batch_index)
  then show ?thesis by (simp add: pixels_def yx_def)
qed

lemma get_pixel_value_ok:
  assumes sh: "shape3 y = shape3 x"
    and bnd: "\<And>b i j. in3 x b i j \<Longrightarrow>
       b < length img \<and> 0 \<le> y ! b ! i ! j \<and> nat (y ! b ! i ! j) < length (img ! b) \<and>
       0 \<le> x ! b ! i ! j \<and> nat (x ! b ! i ! j) < length (img ! b ! nat (y ! b ! i ! j))"
  shows "get_pixel_value img x y = Inr (pixels img x y)"
  unfolding get_pixel_value_Inr_iff
proof (intro conjI allI impI)
  show "shape3 y = shape3 x" by (rule sh)
  show "shape3 (pixels img x y) = shape3 x" using sh by (rule pixels_shape)
  fix b i j assume r: "in3 x b i j"
  show "gather_at img (b, y ! b ! i ! j, x ! b ! i ! j) = Inr (pixels img x y ! b ! i ! j)"
    using bnd[OF r] by (simp add: gather_at_def pixels_nth[OF sh r])
qed

lemma weighted_shape: "shape3 w = shape3 p \<Longrightarrow> shape3 (weighted w p) = shape3 p"
  unfolding weighted_def by (rule shape3_tmap2)

lemma weighted_nth:
  "in3 w b i j \<Longrightarrow> in3 p b i j \<Longrightarrow>
     weighted w p ! b ! i ! j = map (\<lambda>v. w ! b ! i ! j * v) (p ! b ! i ! j)"
  by (simp add: weighted_def nth3_tmap2)

lemma add_n4_shape:
  assumes "shape3 p = shape3 s" "shape3 q = shape3 s" "shape3 r = shape3 s"
  shows "shape3 (add_n4 p q r s) = shape3 s"
proof -
  have 1: "shape3 (tmap2 (map2 (+)) p q) = shape3 s"
    using shape3_tmap2[of p q] assms by simp
  have 2: "shape3 (tmap2 (map2 (+)) (tmap2 (map2 (+)) p q) r) = shape3 s"
    using shape3_tmap2[of "tmap2 (map2 (+)) p q" r] 1 assms by simp
  show ?thesis
    unfolding add_n4_def using shape3_tmap2[of "tmap2 (map2 (+)) (tmap2 (map2 (+)) p q) r" s] 2
    by simp
qed

lemma add_n4_nth:
  assumes "in3 p b i j" "in3 q b i j" "in3 r b i j" "in3 s b i j"
  shows "add_n4 p q r s ! b ! i ! j =
     map2 (+) (map2 (+) (map2 (+) (p ! b ! i ! j) (q ! b ! i ! j)) (r ! b ! i ! j)) (s ! b ! i ! j)"
  using assms by (simp add: add_n4_def nth3_tmap2 in3_tmap2)

lemma corner_bounds:
  assumes wf: "is_image_batch img B H W C" and H: "1 \<le> H" and W: "1 \<le> W"
    and sh: "shape3 y = shape3 x" and len: "length x \<le> B" and r: "in3 x b i j"
    and c: "c = sampler_corners img x y"
  shows "b < B"
    and "0 \<le> x0 c ! b ! i ! j \<and> x0 c ! b ! i ! j \<le> int W - 1"
    and "0 \<le> x1 c ! b ! i ! j \<and> x1 c ! b ! i ! j \<le> int W - 1"
    and "0 \<le> y0 c ! b ! i ! j \<and> y0 c ! b ! i ! j \<le> int H - 1"
    and "0 \<le> y1 c ! b ! i ! j \<and> y1 c ! b ! i ! j \<le> int H - 1"
proof -
  show b: "b < B" using r len by (simp add: in3_def)
  then have B: "0 < B" by simp
  have h: "img_height img = H" using wf B by (rule img_height_eq)
  have w: "img_width img = W" using img_width_eq[OF wf B] H by simp
  have ry: "in3 y b i j" using r shape3_in3[OF sh] by simp
  have hw: "0 \<le> int W - 1" "0 \<le> int H - 1" using H W by simp_all
  show "0 \<le> x0 c ! b ! i ! j \<and> x0 c ! b ! i ! j \<le> int W - 1"
    unfolding c corners_x(2)[OF r] w using hw(1) by (rule clip_by_value_bounds)
  show "0 \<le> x1 c ! b ! i ! j \<and> x1 c ! b ! i ! j \<le> int W - 1"
    unfolding c corners_x(3)[OF r] w using hw(1) by (rule clip_by_value_bounds)
  show "0 \<le> y0 c ! b ! i ! j \<and> y0 c ! b ! i ! j \<le> int H - 1"
    unfolding c corners_y(2)[OF ry] h using hw(2) by (rule clip_by_value_bounds)
  show "0 \<le> y1 c ! b ! i ! j \<and> y1 c ! b ! i ! j \<le> int H - 1"
    unfolding c corners_y(3)[OF ry] h using hw(2) by (rule clip_by_value_bounds)
qed

lemma gather_corner_ok:
  assumes wf: "is_image_batch img B H W C"
    and sh: "shape3 ty = shape3 tx"
    and bnd: "\<And>b i j. in3 tx b i j \<Longrightarrow>
       b < B \<and> 0 \<le> tx ! b ! i ! j \<and> tx ! b ! i ! j \<le> int W - 1 \<and>
       0 \<le> ty ! b ! i ! j \<and> ty ! b ! i ! j \<le> int H - 1"
  shows "get_pixel_value img tx ty = Inr (pixels img tx ty)"
proof (rule get_pixel_value_ok[OF sh])
  fix b i j assume r: "in3 tx b i j"
  have b: "b < B" and x: "0 \<le> tx ! b ! i ! j" "nat (tx ! b ! i ! j) < W"
    and y: "0 \<le> ty ! b ! i ! j" "nat (ty ! b ! i ! j) < H"
    using bnd[OF r] by auto
  have "length img = B" using wf by (rule is_image_batchD(1))
  moreover have "length (img ! b) = H" using wf b by (rule is_image_batchD(2))
  moreover have "length (img ! b ! nat (ty ! b ! i ! j)) = W"
    using wf b y(2) by (rule is_image_batchD(3))
  ultimately show "b < length img \<and> 0 \<le> ty ! b ! i ! j \<and> nat (ty ! b ! i ! j) < length (img ! b) \<and>
       0 \<le> tx ! b ! i ! j \<and> nat (tx ! b ! i ! j) < length (img ! b ! nat (ty ! b ! i ! j))"
    using b x y by simp
qed

lemma bilinear_sampler_ok:
  assumes wf: "is_image_batch img B H W C" and H: "1 \<le> H" and W: "1 \<le> W"
    and sh: "shape3 y = shape3 x" and len: "length x \<le> B"
  shows "bilinear_sampler img x y = Inr (sampler_out img x y)"
proof -
  define c where "c = sampler_corners img x y"
  note cb = corner_bounds[OF wf H W sh len _ c_def]
  have sx: "shape3 (x0 c) = shape3 x" "shape3 (x1 c) = shape3 x"
    and sy: "shape3 (y0 c) = shape3 x" "shape3 (y1 c) = shape3 x"
    unfolding c_def using sh by (simp_all add: corners_shape)
  have i0: "in3 (x0 c) b i j = in3 x b i j" for b i j using sx(1) by (rule shape3_in3)
  have i1: "in3 (x1 c) b i j = in3 x b i j" for b i j using sx(2) by (rule shape3_in3)
  have a: "get_pixel_value img (x0 c) (y0 c) = Inr (pixels img (x0 c) (y0 c))"
    by (rule gather_corner_ok[OF wf]) (use sx sy cb in \<open>simp_all add: i0\<close>)
  have b: "get_pixel_value img (x0 c) (y1 c) = Inr (pixels img (x0 c) (y1 c))"
    by (rule gather_corner_ok[OF wf]) (use sx sy cb in \<open>simp_all add: i0\<close>)
  have c': "get_pixel_value img (x1 c) (y0 c) = Inr (pixels img (x1 c) (y0 c))"
    by (rule gather_corner_ok[OF wf]) (use sx sy cb in \<open>simp_all add: i1\<close>)
  have d: "get_pixel_value img (x1 c) (y1 c) = Inr (pixels img (x1 c) (y1 c))"
    by (rule gather_corner_ok[OF wf]) (use sx sy cb in \<open>simp_all add: i1\<close>)
  show ?thesis
    unfolding bilinear_sampler_def sampler_out_def Let_def c_def[symmetric]
    by (simp add: a b c' d)
qed

lemma sampler_out_shape:
  assumes sh: "shape3 y = shape3 x"
  shows "shape3 (sampler_out img x y) = shape3 x"
proof -
  define c where "c = sampler_corners img x y"
  define w where "w = sampler_weights c"
  have sc: "shape3 (x0 c) = shape3 x" "shape3 (x1 c) = shape3 x"
    "shape3 (y0 c) = shape3 x" "shape3 (y1 c) = shape3 x"
    unfolding c_def using sh by (simp_all add: corners_shape)
  have sw: "shape3 (wa w) = shape3 x" "shape3 (wb w) = shape3 x"
    "shape3 (wc w) = shape3 x" "shape3 (wd w) = shape3 x"
    unfolding w_def c_def using weights_shape[OF sh] by simp_all
  have sp: "shape3 (pixels img (x0 c) (y0 c)) = shape3 x"
    "shape3 (pixels img (x0 c) (y1 c)) = shape3 x"
    "shape3 (pixels img (x1 c) (y0 c)) = shape3 x"
    "shape3 (pixels img (x1 c) (y1 c)) = shape3 x"
    using sc by (simp_all add: pixels_shape)
  have "shape3 (add_n4 (weighted (wa w) (pixels img (x0 c) (y0 c)))
                (weighted (wb w) (pixels img (x0 c) (y1 c)))
                (weighted (wc w) (pixels img (x1 c) (y0 c)))
                (weighted (wd w) (pixels img (x1 c) (y1 c)))) = shape3 x"
    using sw sp by (simp add: add_n4_shape weighted_shape)
  then show ?thesis by (simp add: sampler_out_def Let_def c_def w_def)
qed

lemma sampler_out_nth:
  assumes sh: "shape3 y = shape3 x" and r: "in3 x b i j"
    and c: "c = sampler_corners img x y" and w: "w = sampler_weights c"
  shows "sampler_out img x y ! b ! i ! j =
     blend (wa w ! b ! i ! j) (img ! b ! nat (y0 c ! b ! i ! j) ! nat (x0 c ! b ! i ! j))
           (wb w ! b ! i ! j) (img ! b ! nat (y1 c ! b ! i ! j) ! nat (x0 c ! b ! i ! j))
           (wc w ! b ! i ! j) (img ! b ! nat (y0 c ! b ! i ! j) ! nat (x1 c ! b ! i ! j))
           (wd w ! b ! i ! j) (img ! b ! nat (y1 c ! b ! i ! j) ! nat (x1 c ! b ! i ! j))"
proof -
  have sc: "shape3 (x0 c) = shape3 x" "shape3 (x1 c) = shape3 x"
    "shape3 (y0 c) = shape3 x" "shape3 (y1 c) = shape3 x"
    unfolding c using sh by (simp_all add: corners_shape)
  have sw: "shape3 (wa w) = shape3 x" "shape3 (wb w) = shape3 x"
    "shape3 (wc w) = shape3 x" "shape3 (wd w) = shape3 x"
    unfolding w c using weights_shape[OF sh] by simp_all
  have sp: "shape3 (pixels img (x0 c) (y0 c)) = shape3 x"
    "shape3 (pixels img (x0 c) (y1 c)) = shape3 x"
    "shape3 (pixels img (x1 c) (y0 c)) = shape3 x"
    "shape3 (pixels img (x1 c) (y1 c)) = shape3 x"
    using sc by (simp_all add: pixels_shape)
  have ic: "in3 (x0 c) b i j" "in3 (x1 c) b i j"
    using r by (simp_all add: shape3_in3[OF sc(1)] shape3_in3[OF sc(2)])
  have iw: "in3 (wa w) b i j" "in3 (wb w) b i j" "in3 (wc w) b i j" "in3 (wd w) b i j"
    using r by (simp_all add: shape3_in3[OF sw(1)] shape3_in3[OF sw(2)]
        shape3_in3[OF sw(3)] shape3_in3[OF sw(4)])
  have ip: "in3 (pixels img (x0 c) (y0 c)) b i j" "in3 (pixels img (x0 c) (y1 c)) b i j"
    "in3 (pixels img (x1 c) (y0 c)) b i j" "in3 (pixels img (x1 c) (y1 c)) b i j"
    using r by (simp_all add: shape3_in3[OF sp(1)] shape3_in3[OF sp(2)]
        shape3_in3[OF sp(3)] shape3_in3[OF sp(4)])
  have iwp: "in3 (weighted (wa w) (pixels img (x0 c) (y0 c))) b i j"
    "in3 (weighted (wb w) (pixels img (x0 c) (y1 c))) b i j"
    "in3 (weighted (wc w) (pixels img (x1 c) (y0 c))) b i j"
    "in3 (weighted (wd w) (pixels img (x1 c) (y1 c))) b i j"
    using iw ip by (simp_all add: weighted_def in3_tmap2)
  have pv: "pixels img (x0 c) (y0 c) ! b ! i ! j = img ! b ! nat (y0 c ! b ! i ! j) ! nat (x0 c ! b ! i ! j)"
    "pixels img (x0 c) (y1 c) ! b ! i ! j = img ! b ! nat (y1 c ! b ! i ! j) ! nat (x0 c ! b ! i ! j)"
    "pixels img (x1 c) (y0 c) ! b ! i ! j = img ! b ! nat (y0 c ! b ! i ! j) ! nat (x1 c ! b ! i ! j)"
    "pixels img (x1 c) (y1 c) ! b ! i ! j = img ! b ! nat (y1 c ! b ! i ! j) ! nat (x1 c ! b ! i ! j)"
    using sc ic by (simp_all add: pixels_nth)
  have "add_n4 (weighted (wa w) (pixels img (x0 c) (y0 c)))
                (weighted (wb w) (pixels img (x0 c) (y1 c)))
                (weighted (wc w) (pixels img (x1 c) (y0 c)))
                (weighted (wd w) (pixels img (x1 c) (y1 c))) ! b ! i ! j =
     blend (wa w ! b ! i ! j) (img ! b ! nat (y0 c ! b ! i ! j) ! nat (x0 c ! b ! i ! j))
           (wb w ! b ! i ! j) (img ! b ! nat (y1 c ! b ! i ! j) ! nat (x0 c ! b ! i ! j))
           (wc w ! b ! i ! j) (img ! b ! nat (y0 c ! b ! i ! j) ! nat (x1 c ! b ! i ! j))
           (wd w ! b ! i ! j) (img ! b ! nat (y1 c ! b ! i ! j) ! nat (x1 c ! b ! i ! j))"
    unfolding add_n4_nth[OF iwp] weighted_nth[OF iw(1) ip(1)] weighted_nth[OF iw(2) ip(2)]
      weighted_nth[OF iw(3) ip(3)] weighted_nth[OF iw(4) ip(4)] pv blend_def ..
  then show ?thesis by (simp add: sampler_out_def Let_def c w)
qed

lemma blend_eq:
  assumes "length p = n" "length q = n" "length r = n" "length s = n"
  shows "blend a p b q c r d s = map (\<lambda>k. a * p ! k + b * q ! k + c * r ! k + d * s ! k) [0..<n]"
  unfolding blend_def using assms by (intro nth_equalityI) simp_all

section \<open>The sampling grid in closed form\<close>

lemma linspace_grid: "linspace (- 1) 1 n = map (grid_coord n) [0..<n]"
  by (simp add: linspace_def grid_coord_def)

lemma length_concat_const:
  "(\<And>r. r \<in> set rows \<Longrightarrow> length r = W) \<Longrightarrow> length (concat rows) = length rows * W"
  by (induction rows) simp_all

lemma nth_concat_const:
  "(\<And>r. r \<in> set rows \<Longrightarrow> length r = W) \<Longrightarrow> i < length rows \<Longrightarrow> j < W \<Longrightarrow>
     concat rows ! (i * W + j) = rows ! i ! j"
proof (induction rows arbitrary: i)
  case Nil
  then show ?case by simp
next
  case (Cons r rows)
  have lr: "length r = W" using Cons.prems(1) by simp
  show ?case
  proof (cases i)
    case 0
    then show ?thesis using lr Cons.prems(3) by (simp add: nth_append)
  next
    case (Suc k)
    have "concat rows ! (k * W + j) = rows ! k ! j"
      by (rule Cons.IH) (use Cons.prems Suc in auto)
    moreover have "(r @ concat rows) ! (W + (k * W + j)) = concat rows ! (k * W + j)"
      using lr by (simp add: nth_append)
    ultimately show ?thesis using Suc by (simp add: add.assoc)
  qed
qed

lemma reshape_map:
  "reshape H W (map F [0..<H * W]) = map (\<lambda>i. map (\<lambda>j. F (i * W + j)) [0..<W]) [0..<H]"
proof -
  have "take W (drop (i * W) (map F [0..<H * W])) = map (\<lambda>j. F (i * W + j)) [0..<W]"
    if "i < H" for i
  proof -
    have "Suc i * W \<le> H * W" using that by (intro mult_le_mono1) simp
    then have le: "i * W + W \<le> H * W" by (simp add: add.commute)
    have "take W (drop (i * W) [0..<H * W]) = [i * W..<i * W + W]"
      using le by (simp add: drop_upt take_upt)
    then have "take W (drop (i * W) (map F [0..<H * W])) = map F [i * W..<i * W + W]"
      by (simp add: take_map drop_map)
    also have "\<dots> = map (\<lambda>j. F (i * W + j)) [0..<W]"
    proof -
      have "[i * W..<i * W + W] = map (\<lambda>j. j + i * W) [0..<W]"
        by (simp add: map_add_upt add.commute)
      then show ?thesis by (simp add: comp_def add.commute)
    qed
    finally show ?thesis .
  qed
  then show ?thesis by (simp add: reshape_def)
qed

lemma affine_grid_generator_eq:
  "affine_grid_generator H W theta = map (\<lambda>th. [grid_x H W th, grid_y H W th]) theta"
proof -
  define gx where "gx = map (grid_coord W) [0..<W]"
  define gy where "gy = map (grid_coord H) [0..<H]"
  define X where "X = concat (map (\<lambda>_. gx) gy)"
  define Y where "Y = concat (map (\<lambda>v. map (\<lambda>_. v) gx) gy)"
  have lX: "length X = H * W"
    unfolding X_def by (subst length_concat_const[where W = W]) (auto simp: gx_def gy_def)
  have lY: "length Y = H * W"
    unfolding Y_def by (subst length_concat_const[where W = W]) (auto simp: gx_def gy_def)
  have nX: "X ! (i * W + j) = grid_coord W j" if "i < H" "j < W" for i j
    unfolding X_def using that
    by (subst nth_concat_const[where W = W]) (auto simp: gx_def gy_def)
  have nY: "Y ! (i * W + j) = grid_coord H i" if "i < H" "j < W" for i j
    unfolding Y_def using that
    by (subst nth_concat_const[where W = W]) (auto simp: gx_def gy_def)
  have n: "i * W + j < H * W" if "i < H" "j < W" for i j
  proof -
    have "Suc i * W \<le> H * W" using that by (intro mult_le_mono1) simp
    then show ?thesis using that by simp
  qed
  have row: "map (reshape H W) (matmul th [X, Y, map (\<lambda>_. 1) X]) = [grid_x H W th, grid_y H W th]"
    for th
  proof -
    obtain a b c d e f where th: "th = ((a, b, c), (d, e, f))" by (metis prod_cases3)
    have r: "reshape H W (map (\<lambda>n. p * X ! n + q * Y ! n + s * map (\<lambda>_. 1) X ! n) [0..<length X])
        = map (\<lambda>i. map (\<lambda>j. p * grid_coord W j + q * grid_coord H i + s) [0..<W]) [0..<H]"
      for p q s :: real
      unfolding lX reshape_map using n lX by (simp add: nX nY)
    show ?thesis
      unfolding th by (simp add: matmul_def grid_x_def grid_y_def r)
  qed
  have "map2 matmul theta (replicate (length theta) G) = map (\<lambda>th. matmul th G) theta"
    for G :: "real list list"
    by (intro nth_equalityI) simp_all
  then show ?thesis
    unfolding affine_grid_generator_def Let_def meshgrid_def linspace_grid
    by (simp add: gx_def[symmetric] gy_def[symmetric] X_def[symmetric] Y_def[symmetric] row)
qed

lemma transform_eq:
  "transform H W img theta = bilinear_sampler img (map (grid_x H W) theta) (map (grid_y H W) theta)"
  by (simp add: transform_def affine_grid_generator_eq comp_def)

lemma grid_shape:
  "shape3 (map (grid_x H W) theta) = replicate (length theta) (replicate H W)"
  "shape3 (map (grid_y H W) theta) = replicate (length theta) (replicate H W)"
  by (auto simp: shape3_def grid_x_def grid_y_def comp_def map_replicate_const
      intro!: nth_equalityI split: prod.splits)

section \<open>Per-pixel form of the sampler\<close>

text \<open>The definitions of the program, for evaluating it on a concrete input.\<close>

lemmas eval_defs = transform_def affine_grid_generator_def linspace_def meshgrid_def
  matmul_def reshape_def bilinear_sampler_def sampler_corners_def sampler_weights_def
  get_pixel_value_def gather_nd_def gather_at_def tmap_def tmap2_def shape3_def
  img_height_def img_width_def rescale_def clip_by_value_def weighted_def add_n4_def Let_def

lemma sampler_out_px:
  assumes sh: "shape3 y = shape3 x" and r: "in3 x b i j"
  shows "sampler_out img x y ! b ! i ! j =
     sample_px (img ! b) (int (img_width img) - 1) (int (img_height img) - 1)
       (x ! b ! i ! j) (y ! b ! i ! j)"
proof -
  have ry: "in3 y b i j" using r shape3_in3[OF sh] by simp
  show ?thesis
    unfolding sampler_out_nth[OF sh r refl refl] weights_nth[OF r ry refl refl]
      corners_x[OF r] corners_y[OF ry] sample_px_def Let_def ..
qed

lemma clip_succ:
  "clip_by_value (t + 1) 0 m \<noteq> clip_by_value t 0 m \<Longrightarrow>
     clip_by_value (t + 1) 0 m = clip_by_value t 0 m + 1 \<and> clip_by_value t 0 m = t"
  by (auto simp: clip_by_value_def max_def min_def split: if_splits)

lemma clip_inside: "0 \<le> t \<Longrightarrow> t \<le> m \<Longrightarrow> clip_by_value t 0 m = t"
  by (simp add: clip_by_value_def)


lemma weights_sum:
  fixes x y p0 p1 q0 q1 :: real
  shows "(p1 - x) * (q1 - y) + (p1 - x) * (y - q0) + (x - p0) * (q1 - y) + (x - p0) * (y - q0)
      = (p1 - p0) * (q1 - q0)"
  by (simp add: algebra_simps)

lemma grid_planes:
  "map (\<lambda>g. g ! 0) (affine_grid_generator H W theta) = map (grid_x H W) theta"
  "map (\<lambda>g. g ! 1) (affine_grid_generator H W theta) = map (grid_y H W) theta"
  by (simp_all add: affine_grid_generator_eq comp_def)

lemma grid_nth:
  assumes "i < H" "j < W"
  shows "grid_x H W ((a, b, c), r) ! i ! j = a * grid_coord W j + b * grid_coord H i + c"
    and "grid_y H W (l, (d, e, f)) ! i ! j = d * grid_coord W j + e * grid_coord H i + f"
  using assms by (simp_all add: grid_x_def grid_y_def)

lemma grid_in3:
  "in3 (map (grid_x H W) theta) b i j \<longleftrightarrow> b < length theta \<and> i < H \<and> j < W"
  "in3 (map (grid_y H W) theta) b i j \<longleftrightarrow> b < length theta \<and> i < H \<and> j < W"
  by (auto simp: in3_shape3 grid_shape)

lemma grid_coord_last:
  assumes "2 \<le> n"
  shows "grid_coord n (n - 1) = 1"
proof -
  have m: "max (n - 1) 1 = n - 1" using assms by simp
  define r where "r = real (n - 1)"
  have "r \<noteq> 0" unfolding r_def using assms by simp
  then have "r * (2 / r) = 2" by simp
  then show ?thesis unfolding grid_coord_def m r_def[symmetric] by simp
qed

lemma rescale_formula: "rescale (int n - 1) v = 0.5 * (v + 1) * (real n - 2)"
  by (simp add: rescale_def)

lemma gathers_ok:
  assumes wf: "is_image_batch img B H W C" and H: "1 \<le> H" and W: "1 \<le> W"
    and sh: "shape3 y = shape3 x" and len: "length x \<le> B"
    and c: "c = sampler_corners img x y"
  shows "get_pixel_value img (x0 c) (y0 c) = Inr (pixels img (x0 c) (y0 c))"
    and "get_pixel_value img (x0 c) (y1 c) = Inr (pixels img (x0 c) (y1 c))"
    and "get_pixel_value img (x1 c) (y0 c) = Inr (pixels img (x1 c) (y0 c))"
    and "get_pixel_value img (x1 c) (y1 c) = Inr (pixels img (x1 c) (y1 c))"
proof -
  note cb = corner_bounds[OF wf H W sh len _ c]
  have sx: "shape3 (x0 c) = shape3 x" "shape3 (x1 c) = shape3 x"
    and sy: "shape3 (y0 c) = shape3 x" "shape3 (y1 c) = shape3 x"
    unfolding c using sh by (simp_all add: corners_shape)
  have i0: "in3 (x0 c) b i j = in3 x b i j" for b i j using sx(1) by (rule shape3_in3)
  have i1: "in3 (x1 c) b i j = in3 x b i j" for b i j using sx(2) by (rule shape3_in3)
  show "get_pixel_value img (x0 c) (y0 c) = Inr (pixels img (x0 c) (y0 c))"
    by (rule gather_corner_ok[OF wf]) (use sx sy cb in \<open>simp_all add: i0\<close>)
  show "get_pixel_value img (x0 c) (y1 c) = Inr (pixels img (x0 c) (y1 c))"
    by (rule gather_corner_ok[OF wf]) (use sx sy cb in \<open>simp_all add: i0\<close>)
  show "get_pixel_value img (x1 c) (y0 c) = Inr (pixels img (x1 c) (y0 c))"
    by (rule gather_corner_ok[OF wf]) (use sx sy cb in \<open>simp_all add: i1\<close>)
  show "get_pixel_value img (x1 c) (y1 c) = Inr (pixels img (x1 c) (y1 c))"
    by (rule gather_corner_ok[OF wf]) (use sx sy cb in \<open>simp_all add: i1\<close>)
qed

section \<open>Coinciding corners\<close>







section \<open>The pipeline on well-shaped inputs\<close>

lemma sampler_out_px_wf:
  assumes wf: "is_image_batch img B H W C" and H: "1 \<le> H"
    and sh: "shape3 y = shape3 x" and len: "length x \<le> B" and r: "in3 x b i j"
  shows "sampler_out img x y ! b ! i ! j =
     sample_px (img ! b) (int W - 1) (int H - 1) (x ! b ! i ! j) (y ! b ! i ! j)"
proof -
  have "b < B" using r len by (simp add: in3_def)
  then have B: "0 < B" by simp
  have h: "img_height img = H" using wf B by (rule img_height_eq)
  have w: "img_width img = W" using img_width_eq[OF wf B] H by simp
  show ?thesis unfolding sampler_out_px[OF sh r] h w ..
qed

lemma grid_shape_eq: "shape3 (map (grid_y H W) theta) = shape3 (map (grid_x H W) theta)"
  by (simp add: grid_shape)

lemma transform_ok:
  assumes wf: "is_image_batch img B H W C" and H: "1 \<le> H" and W: "1 \<le> W"
    and len: "length theta \<le> B"
  shows "transform h w img theta =
     Inr (sampler_out img (map (grid_x h w) theta) (map (grid_y h w) theta))"
  unfolding transform_eq
  using wf H W grid_shape_eq by (rule bilinear_sampler_ok) (use len in simp)

lemma transform_out_shape:
  "shape3 (sampler_out img (map (grid_x h w) theta) (map (grid_y h w) theta)) =
     replicate (length theta) (replicate h w)"
  using sampler_out_shape[OF grid_shape_eq] by (simp add: grid_shape)

lemma transform_out_nth:
  assumes wf: "is_image_batch img B H W C" and H: "1 \<le> H"
    and len: "length theta \<le> B" and b: "b < length theta" and i: "i < h" and j: "j < w"
  shows "sampler_out img (map (grid_x h w) theta) (map (grid_y h w) theta) ! b ! i ! j =
     sample_px (img ! b) (int W - 1) (int H - 1)
       (grid_x h w (theta ! b) ! i ! j) (grid_y h w (theta ! b) ! i ! j)"
proof -
  have r: "in3 (map (grid_x h w) theta) b i j" unfolding grid_in3 using b i j by simp
  have l: "length (map (grid_x h w) theta) \<le> B" using len by simp
  show ?thesis
    unfolding sampler_out_px_wf[OF wf H grid_shape_eq l r] using b by simp
qed

lemma is_image_batch_select:
  assumes wf: "is_image_batch img B H W C" and p: "set p \<subseteq> {..<B}"
  shows "is_image_batch (map ((!) img) p) (length p) H W C"
proof -
  have "img ! k \<in> set img" if "k \<in> set p" for k
    using that p is_image_batchD(1)[OF wf] by auto
  then show ?thesis using wf by (auto simp: is_image_batch_def)
qed

lemma transform_select:
  assumes wf: "is_image_batch img B H W C" and H: "1 \<le> H" and W: "1 \<le> W"
    and len: "length theta = B" and p: "set p \<subseteq> {..<B}"
  shows "transform h w (map ((!) img) p) (map ((!) theta) p) =
     Inr (map ((!) (sampler_out img (map (grid_x h w) theta) (map (grid_y h w) theta))) p)"
proof -
  define out where "out = sampler_out img (map (grid_x h w) theta) (map (grid_y h w) theta)"
  define img' where "img' = map ((!) img) p"
  define theta' where "theta' = map ((!) theta) p"
  define out' where "out' = sampler_out img' (map (grid_x h w) theta') (map (grid_y h w) theta')"
  have wf': "is_image_batch img' (length p) H W C"
    unfolding img'_def using wf p by (rule is_image_batch_select)
  have l': "length theta' = length p" by (simp add: theta'_def)
  have pk: "p ! k < B" if "k < length p" for k using that p by (auto simp: subset_iff)
  have so: "shape3 out = replicate B (replicate h w)"
    unfolding out_def transform_out_shape len ..
  have so': "shape3 out' = replicate (length p) (replicate h w)"
    unfolding out'_def transform_out_shape l' ..
  have "map (\<lambda>k. map length (out ! k)) p = map (\<lambda>k. replicate h w) p"
  proof (rule map_cong[OF refl])
    fix k assume "k \<in> set p"
    then have k: "k < B" using p by auto
    then have "shape3 out ! k = replicate h w" unfolding so by simp
    moreover have "length out = B" using so by (metis length_map length_replicate shape3_def)
    ultimately show "map length (out ! k) = replicate h w" using k by (simp add: shape3_def)
  qed
  then have sm: "shape3 (map ((!) out) p) = replicate (length p) (replicate h w)"
    by (simp add: shape3_def comp_def map_replicate_const)
  have "out' = map ((!) out) p"
  proof (rule tensor3_eqI)
    show "shape3 out' = shape3 (map ((!) out) p)" unfolding so' sm ..
    fix k i j assume "in3 (map ((!) out) p) k i j"
    then have k: "k < length p" and i: "i < h" and j: "j < w"
      unfolding in3_shape3 sm by auto
    have k': "k < length theta'" using k l' by simp
    have kb: "p ! k < length theta" using pk[OF k] len by simp
    have "out' ! k ! i ! j = sample_px (img' ! k) (int W - 1) (int H - 1)
       (grid_x h w (theta' ! k) ! i ! j) (grid_y h w (theta' ! k) ! i ! j)"
      unfolding out'_def using wf' H _ k' i j by (rule transform_out_nth) (simp add: l')
    also have "\<dots> = sample_px (img ! (p ! k)) (int W - 1) (int H - 1)
       (grid_x h w (theta ! (p ! k)) ! i ! j) (grid_y h w (theta ! (p ! k)) ! i ! j)"
      using k by (simp add: img'_def theta'_def)
    also have "\<dots> = out ! (p ! k) ! i ! j"
      unfolding out_def using wf H _ kb i j by (rule transform_out_nth[symmetric]) (simp add: len)
    finally show "out' ! k ! i ! j = map ((!) out) p ! k ! i ! j" using k by simp
  qed
  moreover have "transform h w img' theta' = Inr out'"
    unfolding out'_def using wf' H W by (rule transform_ok) (simp add: l')
  ultimately show ?thesis by (simp add: img'_def theta'_def out_def)
qed

lemma grid_zero:
  assumes "i < H" "j < W"
  shows "grid_x H W zero_theta ! i ! j = 0" and "grid_y H W zero_theta ! i ! j = 0"
  using assms by (simp_all add: zero_theta_def grid_x_def grid_y_def)

section \<open>Corners outside the image\<close>





section \<open>The identity transform and the rescale\<close>

text \<open>
  C1. The docstring of \<^verbatim>\<open>bilinear_sampler\<close> promises that the output image is identical to
  the input image for the identity transform. On the 4x4 single-channel image with values
  0..15, the identity matrix and a 4x4 output, the code returns an image bilinearly
  resampled from the upper left 3x3 block instead: output pixel (i, j) is (8 i + 2 j) / 3,
  so the last column shows column 2 of the input and the last row shows row 2.
\<close>

theorem identity_transform_4x4:
  "transform 4 4 img4 [identity_theta] =
     Inr [[[[0], [2 / 3], [4 / 3], [2]], [[8 / 3], [10 / 3], [4], [14 / 3]],
           [[16 / 3], [6], [20 / 3], [22 / 3]], [[8], [26 / 3], [28 / 3], [10]]]]"
  by (simp add: eval_defs img4_def identity_theta_def upt_rec)

text \<open>
  C2. The comment above the rescale says that it maps to the range [0, W-1] and [0, H-1].
  For a 4x4 image the normalized endpoint +1 is mapped to pixel 2, not to pixel 3; the
  endpoint -1 is mapped to pixel 0.
\<close>

theorem rescale_endpoints_4:
  "xs (sampler_corners img4 [[[1]]] [[[- 1]]]) = [[[2]]] \<and>
   ys (sampler_corners img4 [[[1]]] [[[1]]]) = [[[2]]] \<and>
   xs (sampler_corners img4 [[[- 1]]] [[[- 1]]]) = [[[0]]]"
  by (simp add: eval_defs img4_def)

text \<open>
  C5. The sampler rescales a normalized coordinate \<open>v\<close> to \<open>0.5 * (v + 1) * (dim - 2)\<close>,
  with \<open>dim\<close> the source width for x and the source height for y. So for the identity
  transform with the output size equal to the input size, the last column of the grid is
  sampled at pixel \<open>W - 2\<close> and the last row at pixel \<open>H - 2\<close>: one short of the last
  pixel of the image.
\<close>

theorem rescale_as_implemented:
  assumes wf: "is_image_batch img B H W C" and B: "0 < B" and H: "1 \<le> H"
    and rx: "in3 x b i j" and ry: "in3 y b i j"
  shows "xs (sampler_corners img x y) ! b ! i ! j = 0.5 * (x ! b ! i ! j + 1) * (real W - 2) \<and>
         ys (sampler_corners img x y) ! b ! i ! j = 0.5 * (y ! b ! i ! j + 1) * (real H - 2) \<and>
         (\<forall>k<B. \<forall>i'<H. \<forall>j'<W. 2 \<le> H \<longrightarrow> 2 \<le> W \<longrightarrow>
            (let grid = affine_grid_generator H W (replicate B identity_theta);
                 c = sampler_corners img (map (\<lambda>g. g ! 0) grid) (map (\<lambda>g. g ! 1) grid)
             in xs c ! k ! i' ! (W - 1) = real W - 2 \<and> ys c ! k ! (H - 1) ! j' = real H - 2))"
proof -
  have h: "img_height img = H" using wf B by (rule img_height_eq)
  have w: "img_width img = W" using img_width_eq[OF wf B] H by simp
  have 1: "xs (sampler_corners img x y) ! b ! i ! j = 0.5 * (x ! b ! i ! j + 1) * (real W - 2)"
    unfolding corners_x(1)[OF rx] w by (rule rescale_formula)
  have 2: "ys (sampler_corners img x y) ! b ! i ! j = 0.5 * (y ! b ! i ! j + 1) * (real H - 2)"
    unfolding corners_y(1)[OF ry] h by (rule rescale_formula)
  have 3: "xs (sampler_corners img (map (grid_x H W) (replicate B identity_theta))
                (map (grid_y H W) (replicate B identity_theta))) ! k ! i' ! (W - 1) = real W - 2 \<and>
           ys (sampler_corners img (map (grid_x H W) (replicate B identity_theta))
                (map (grid_y H W) (replicate B identity_theta))) ! k ! (H - 1) ! j' = real H - 2"
    if k: "k < B" and i': "i' < H" and j': "j' < W" and H2: "2 \<le> H" and W2: "2 \<le> W" for k i' j'
  proof -
    have a: "in3 (map (grid_x H W) (replicate B identity_theta)) k i' (W - 1)"
      unfolding grid_in3 using k i' W2 by simp
    have b: "in3 (map (grid_y H W) (replicate B identity_theta)) k (H - 1) j'"
      unfolding grid_in3 using k j' H2 by simp
    have lW: "W - 1 < W" and lH: "H - 1 < H" using W2 H2 by simp_all
    have kx: "map (grid_x H W) (replicate B identity_theta) ! k = grid_x H W identity_theta"
      and ky: "map (grid_y H W) (replicate B identity_theta) ! k = grid_y H W identity_theta"
      using k by simp_all
    have g1: "grid_x H W identity_theta ! i' ! (W - 1) = 1"
      unfolding identity_theta_def grid_nth(1)[OF i' lW] grid_coord_last[OF W2] by simp
    have g2: "grid_y H W identity_theta ! (H - 1) ! j' = 1"
      unfolding identity_theta_def grid_nth(2)[OF lH j'] grid_coord_last[OF H2] by simp
    have gx: "map (grid_x H W) (replicate B identity_theta) ! k ! i' ! (W - 1) = 1"
      unfolding kx by (rule g1)
    have gy: "map (grid_y H W) (replicate B identity_theta) ! k ! (H - 1) ! j' = 1"
      unfolding ky by (rule g2)
    show ?thesis
      unfolding corners_x(1)[OF a] corners_y(1)[OF b] w h gx gy rescale_formula by simp
  qed
  show ?thesis
    unfolding Let_def grid_planes using 1 2 3 by blast
qed

theorem rescale_as_implemented_witness:
  "is_image_batch img4 1 4 4 1 \<and> in3 [[[1 / 2 :: real]]] 0 0 0 \<and>
   xs (sampler_corners img4 [[[1 / 2]]] [[[1 / 2]]]) ! 0 ! 0 ! 0 = 3 / 2 \<and>
   (let grid = affine_grid_generator 4 4 (replicate 1 identity_theta);
        c = sampler_corners img4 (map (\<lambda>g. g ! 0) grid) (map (\<lambda>g. g ! 1) grid)
    in xs c ! 0 ! 0 ! (4 - 1) = 2 \<and> ys c ! 0 ! (4 - 1) ! 0 = 2)"
proof -
  have wf: "is_image_batch img4 1 4 4 1" by (simp add: is_image_batch_def img4_def)
  have r: "in3 [[[1 / 2 :: real]]] 0 0 0" by (simp add: in3_def)
  have "xs (sampler_corners img4 [[[1 / 2]]] [[[1 / 2]]]) ! 0 ! 0 ! 0 = 3 / 2 \<and>
    (let grid = affine_grid_generator 4 4 (replicate 1 identity_theta);
        c = sampler_corners img4 (map (\<lambda>g. g ! 0) grid) (map (\<lambda>g. g ! 1) grid)
    in xs c ! 0 ! 0 ! (4 - 1) = 2 \<and> ys c ! 0 ! (4 - 1) ! 0 = 2)"
    using rescale_as_implemented[OF wf _ _ r r] by simp
  then show ?thesis using wf r by simp
qed

section \<open>The bilinear weights\<close>

text \<open>
  C4. At every output pixel where the clip leaves the two x corners different and the two
  y corners different, the four weights add up to exactly 1.
\<close>

theorem weights_partition_of_unity:
  assumes "in3 x b i j" and "in3 y b i j"
    and "c = sampler_corners img x y" and "w = sampler_weights c"
    and "x0 c ! b ! i ! j \<noteq> x1 c ! b ! i ! j" and "y0 c ! b ! i ! j \<noteq> y1 c ! b ! i ! j"
  shows "wa w ! b ! i ! j + wb w ! b ! i ! j + wc w ! b ! i ! j + wd w ! b ! i ! j = 1"
proof -
  have "x1 c ! b ! i ! j = x0 c ! b ! i ! j + 1"
    using assms(5) clip_succ unfolding assms(3) corners_x[OF assms(1)] by metis
  moreover have "y1 c ! b ! i ! j = y0 c ! b ! i ! j + 1"
    using assms(6) clip_succ unfolding assms(3) corners_y[OF assms(2)] by metis
  ultimately show ?thesis
    unfolding weights_nth[OF assms(1,2,3,4)] weights_sum by simp
qed

theorem weights_partition_of_unity_witness:
  "in3 [[[0::real]]] 0 0 0 \<and>
   x0 (sampler_corners img3 [[[0]]] [[[0]]]) ! 0 ! 0 ! 0 \<noteq> x1 (sampler_corners img3 [[[0]]] [[[0]]]) ! 0 ! 0 ! 0 \<and>
   y0 (sampler_corners img3 [[[0]]] [[[0]]]) ! 0 ! 0 ! 0 \<noteq> y1 (sampler_corners img3 [[[0]]] [[[0]]]) ! 0 ! 0 ! 0 \<and>
   wa (sampler_weights (sampler_corners img3 [[[0]]] [[[0]]])) ! 0 ! 0 ! 0
   + wb (sampler_weights (sampler_corners img3 [[[0]]] [[[0]]])) ! 0 ! 0 ! 0
   + wc (sampler_weights (sampler_corners img3 [[[0]]] [[[0]]])) ! 0 ! 0 ! 0
   + wd (sampler_weights (sampler_corners img3 [[[0]]] [[[0]]])) ! 0 ! 0 ! 0 = 1"
proof -
  have r: "in3 [[[0::real]]] 0 0 0" by (simp add: in3_def)
  have a: "x0 (sampler_corners img3 [[[0]]] [[[0]]]) ! 0 ! 0 ! 0 \<noteq> x1 (sampler_corners img3 [[[0]]] [[[0]]]) ! 0 ! 0 ! 0"
    by (simp add: eval_defs img3_def)
  have b: "y0 (sampler_corners img3 [[[0]]] [[[0]]]) ! 0 ! 0 ! 0 \<noteq> y1 (sampler_corners img3 [[[0]]] [[[0]]]) ! 0 ! 0 ! 0"
    by (simp add: eval_defs img3_def)
  show ?thesis
    using r a b weights_partition_of_unity[OF r r refl refl a b] by simp
qed

text \<open>
  C7. When the rescaled coordinates are an integer grid point \<open>(k, l)\<close> with
  \<open>0 \<le> k \<le> W - 2\<close> and \<open>0 \<le> l \<le> H - 2\<close>, the corner \<open>(x0, y0)\<close> is that grid point, its
  weight \<open>wa\<close> is 1 and the other three weights are 0. The bound is needed: on the last
  column (\<open>k = W - 1\<close>) the clip makes \<open>x1 = x0\<close>, and all four weights are 0.
\<close>

theorem grid_point_weights:
  assumes "in3 x b i j" and "in3 y b i j"
    and "c = sampler_corners img x y" and "w = sampler_weights c"
    and "xs c ! b ! i ! j = real_of_int k" and "ys c ! b ! i ! j = real_of_int l"
    and "0 \<le> k" and "k \<le> int (img_width img) - 2"
    and "0 \<le> l" and "l \<le> int (img_height img) - 2"
  shows "x0 c ! b ! i ! j = k \<and> y0 c ! b ! i ! j = l \<and>
         wa w ! b ! i ! j = 1 \<and> wb w ! b ! i ! j = 0 \<and>
         wc w ! b ! i ! j = 0 \<and> wd w ! b ! i ! j = 0"
proof -
  have fx: "\<lfloor>rescale (int (img_width img) - 1) (x ! b ! i ! j)\<rfloor> = k"
    using assms(5) unfolding assms(3) corners_x(1)[OF assms(1)] by simp
  have fy: "\<lfloor>rescale (int (img_height img) - 1) (y ! b ! i ! j)\<rfloor> = l"
    using assms(6) unfolding assms(3) corners_y(1)[OF assms(2)] by simp
  have px0: "x0 c ! b ! i ! j = k"
    unfolding assms(3) corners_x(2)[OF assms(1)] fx using assms(7,8) by (simp add: clip_inside)
  have px1: "x1 c ! b ! i ! j = k + 1"
    unfolding assms(3) corners_x(3)[OF assms(1)] fx using assms(7,8) by (simp add: clip_inside)
  have py0: "y0 c ! b ! i ! j = l"
    unfolding assms(3) corners_y(2)[OF assms(2)] fy using assms(9,10) by (simp add: clip_inside)
  have py1: "y1 c ! b ! i ! j = l + 1"
    unfolding assms(3) corners_y(3)[OF assms(2)] fy using assms(9,10) by (simp add: clip_inside)
  show ?thesis
    unfolding weights_nth[OF assms(1,2,3,4)] px0 px1 py0 py1 assms(5,6) by simp
qed

theorem grid_point_weights_witness:
  "in3 [[[1 :: real]]] 0 0 0 \<and>
   xs (sampler_corners img3 [[[1]]] [[[- 1]]]) ! 0 ! 0 ! 0 = real_of_int 1 \<and>
   ys (sampler_corners img3 [[[1]]] [[[- 1]]]) ! 0 ! 0 ! 0 = real_of_int 0 \<and>
   (1 :: int) \<le> int (img_width img3) - 2 \<and> (0 :: int) \<le> int (img_height img3) - 2 \<and>
   x0 (sampler_corners img3 [[[1]]] [[[- 1]]]) ! 0 ! 0 ! 0 = 1 \<and>
   wa (sampler_weights (sampler_corners img3 [[[1]]] [[[- 1]]])) ! 0 ! 0 ! 0 = 1 \<and>
   wd (sampler_weights (sampler_corners img3 [[[1]]] [[[- 1]]])) ! 0 ! 0 ! 0 = 0"
proof -
  have r: "in3 [[[1 :: real]]] 0 0 0" and r': "in3 [[[- 1 :: real]]] 0 0 0"
    by (simp_all add: in3_def)
  have a: "xs (sampler_corners img3 [[[1]]] [[[- 1]]]) ! 0 ! 0 ! 0 = real_of_int 1"
    and b: "ys (sampler_corners img3 [[[1]]] [[[- 1]]]) ! 0 ! 0 ! 0 = real_of_int 0"
    by (simp_all add: eval_defs img3_def)
  have k: "(0 :: int) \<le> 1" "(1 :: int) \<le> int (img_width img3) - 2"
    and l: "(0 :: int) \<le> 0" "(0 :: int) \<le> int (img_height img3) - 2"
    by (simp_all add: img_width_def img_height_def img3_def)
  show ?thesis
    using grid_point_weights[OF r r' refl refl a b k l] r a b k l by simp
qed

text \<open>
  Without the bound: the rescaled coordinates (2, 0) are a grid point of a 3x3 image, on
  its last column, and all four weights are 0.
\<close>

theorem grid_point_weights_counterexample:
  "xs (sampler_corners img3 [[[3]]] [[[- 1]]]) = [[[2]]] \<and>
   ys (sampler_corners img3 [[[3]]] [[[- 1]]]) = [[[0]]] \<and>
   wa (sampler_weights (sampler_corners img3 [[[3]]] [[[- 1]]])) = [[[0]]] \<and>
   wb (sampler_weights (sampler_corners img3 [[[3]]] [[[- 1]]])) = [[[0]]] \<and>
   wc (sampler_weights (sampler_corners img3 [[[3]]] [[[- 1]]])) = [[[0]]] \<and>
   wd (sampler_weights (sampler_corners img3 [[[3]]] [[[- 1]]])) = [[[0]]]"
  by (simp add: eval_defs img3_def)

section \<open>Bounds of the gathered indices\<close>

text \<open>
  C6. For an image batch of height and width at least 1 and coordinate tensors of one
  shape with no more batch elements than the image batch, every corner index the sampler
  passes to \<^verbatim>\<open>get_pixel_value\<close> lies in \<open>[0, W - 1]\<close> (x) and \<open>[0, H - 1]\<close> (y), and none
  of the four gathers fails.
\<close>

theorem corner_indices_in_bounds:
  assumes "is_image_batch img B H W C" and "1 \<le> H" and "1 \<le> W"
    and "shape3 y = shape3 x" and "length x \<le> B"
    and "c = sampler_corners img x y"
  shows "(\<forall>b i j. in3 x b i j \<longrightarrow>
            0 \<le> x0 c ! b ! i ! j \<and> x0 c ! b ! i ! j \<le> int W - 1 \<and>
            0 \<le> x1 c ! b ! i ! j \<and> x1 c ! b ! i ! j \<le> int W - 1 \<and>
            0 \<le> y0 c ! b ! i ! j \<and> y0 c ! b ! i ! j \<le> int H - 1 \<and>
            0 \<le> y1 c ! b ! i ! j \<and> y1 c ! b ! i ! j \<le> int H - 1) \<and>
         (\<exists>I_a I_b I_c I_d.
            get_pixel_value img (x0 c) (y0 c) = Inr I_a \<and>
            get_pixel_value img (x0 c) (y1 c) = Inr I_b \<and>
            get_pixel_value img (x1 c) (y0 c) = Inr I_c \<and>
            get_pixel_value img (x1 c) (y1 c) = Inr I_d)"
proof (intro conjI allI impI)
  fix b i j assume r: "in3 x b i j"
  note cb = corner_bounds[OF assms(1-5) r assms(6)]
  show "0 \<le> x0 c ! b ! i ! j" "x0 c ! b ! i ! j \<le> int W - 1"
    "0 \<le> x1 c ! b ! i ! j" "x1 c ! b ! i ! j \<le> int W - 1"
    "0 \<le> y0 c ! b ! i ! j" "y0 c ! b ! i ! j \<le> int H - 1"
    "0 \<le> y1 c ! b ! i ! j" "y1 c ! b ! i ! j \<le> int H - 1"
    using cb by simp_all
next
  show "\<exists>I_a I_b I_c I_d.
            get_pixel_value img (x0 c) (y0 c) = Inr I_a \<and>
            get_pixel_value img (x0 c) (y1 c) = Inr I_b \<and>
            get_pixel_value img (x1 c) (y0 c) = Inr I_c \<and>
            get_pixel_value img (x1 c) (y1 c) = Inr I_d"
    using gathers_ok[OF assms] by blast
qed

theorem corner_indices_in_bounds_witness:
  "is_image_batch img3 1 3 3 1 \<and> shape3 [[[- 1 :: real]]] = shape3 [[[100 :: real]]] \<and>
   in3 [[[100 :: real]]] 0 0 0 \<and>
   0 \<le> x0 (sampler_corners img3 [[[100]]] [[[- 1]]]) ! 0 ! 0 ! 0 \<and>
   x0 (sampler_corners img3 [[[100]]] [[[- 1]]]) ! 0 ! 0 ! 0 \<le> int 3 - 1 \<and>
   0 \<le> y1 (sampler_corners img3 [[[100]]] [[[- 1]]]) ! 0 ! 0 ! 0 \<and>
   y1 (sampler_corners img3 [[[100]]] [[[- 1]]]) ! 0 ! 0 ! 0 \<le> int 3 - 1 \<and>
   (\<exists>I_a. get_pixel_value img3 (x0 (sampler_corners img3 [[[100]]] [[[- 1]]]))
            (y0 (sampler_corners img3 [[[100]]] [[[- 1]]])) = Inr I_a)"
proof -
  have wf: "is_image_batch img3 1 3 3 1" by (simp add: is_image_batch_def img3_def)
  have sh: "shape3 [[[- 1 :: real]]] = shape3 [[[100 :: real]]]" by (simp add: shape3_def)
  have r: "in3 [[[100 :: real]]] 0 0 0" by (simp add: in3_def)
  have len: "length [[[100 :: real]]] \<le> 1" by simp
  have h: "(1 :: nat) \<le> 3" by simp
  note t = corner_indices_in_bounds[OF wf h h sh len refl]
  have "0 \<le> x0 (sampler_corners img3 [[[100]]] [[[- 1]]]) ! 0 ! 0 ! 0 \<and>
   x0 (sampler_corners img3 [[[100]]] [[[- 1]]]) ! 0 ! 0 ! 0 \<le> int 3 - 1 \<and>
   0 \<le> y1 (sampler_corners img3 [[[100]]] [[[- 1]]]) ! 0 ! 0 ! 0 \<and>
   y1 (sampler_corners img3 [[[100]]] [[[- 1]]]) ! 0 ! 0 ! 0 \<le> int 3 - 1"
    using t r by blast
  moreover have "\<exists>I_a. get_pixel_value img3 (x0 (sampler_corners img3 [[[100]]] [[[- 1]]]))
            (y0 (sampler_corners img3 [[[100]]] [[[- 1]]])) = Inr I_a"
    using t by blast
  ultimately show ?thesis using wf sh r by simp
qed

section \<open>Sampling outside the image\<close>







section \<open>Degenerate transforms\<close>

text \<open>
  C8. For an image batch of height and width at least 1 and one matrix per image, the
  pipeline returns a result for every \<open>theta\<close>, singular or not. Where the matrix is all
  zero, every output pixel of that batch element has the same value: the image sampled at
  the normalized coordinates (0, 0), that is at the rescaled position
  \<open>((W - 2) / 2, (H - 2) / 2)\<close>. That position is not clipped to an edge pixel in general.
\<close>

theorem degenerate_theta_total:
  assumes "is_image_batch img B H W C" and "1 \<le> H" and "1 \<le> W" and "length theta = B"
  shows "\<exists>out. transform h w img theta = Inr out \<and> length out = B \<and>
           (\<forall>b i j. b < B \<longrightarrow> i < h \<longrightarrow> j < w \<longrightarrow> theta ! b = zero_theta \<longrightarrow>
              out ! b ! i ! j = sample_px (img ! b) (int W - 1) (int H - 1) 0 0 \<and>
              out ! b ! i ! j = out ! b ! 0 ! 0)"
proof (intro exI conjI allI impI)
  let ?out = "sampler_out img (map (grid_x h w) theta) (map (grid_y h w) theta)"
  have le: "length theta \<le> B" using assms(4) by simp
  show "transform h w img theta = Inr ?out"
    using assms(1-3) le by (rule transform_ok)
  show "length ?out = B"
    using transform_out_shape[of img h w theta] assms(4)
    by (metis length_map length_replicate shape3_def)
  fix b i j
  assume b: "b < B" and i: "i < h" and j: "j < w" and z: "theta ! b = zero_theta"
  have bt: "b < length theta" using b assms(4) by simp
  have h0: "0 < h" and w0: "0 < w" using i j by simp_all
  show v: "?out ! b ! i ! j = sample_px (img ! b) (int W - 1) (int H - 1) 0 0"
    unfolding transform_out_nth[OF assms(1,2) le bt i j] z grid_zero[OF i j] ..
  have "?out ! b ! 0 ! 0 = sample_px (img ! b) (int W - 1) (int H - 1) 0 0"
    unfolding transform_out_nth[OF assms(1,2) le bt h0 w0] z grid_zero[OF h0 w0] ..
  then show "?out ! b ! i ! j = ?out ! b ! 0 ! 0" using v by simp
qed

theorem degenerate_theta_total_witness:
  "is_image_batch img4 1 4 4 1 \<and> length [zero_theta] = 1 \<and> [zero_theta] ! 0 = zero_theta \<and>
   (\<exists>out. transform 4 4 img4 [zero_theta] = Inr out \<and> length out = 1 \<and>
      out ! 0 ! 3 ! 2 = sample_px (img4 ! 0) (int 4 - 1) (int 4 - 1) 0 0 \<and>
      out ! 0 ! 3 ! 2 = out ! 0 ! 0 ! 0)"
proof -
  have wf: "is_image_batch img4 1 4 4 1" by (simp add: is_image_batch_def img4_def)
  have h: "(1 :: nat) \<le> 4" by simp
  have l: "length [zero_theta] = 1" by simp
  have z: "[zero_theta] ! 0 = zero_theta" by simp
  obtain out where o: "transform 4 4 img4 [zero_theta] = Inr out" "length out = 1"
    and a: "\<And>b i j. b < 1 \<Longrightarrow> i < 4 \<Longrightarrow> j < 4 \<Longrightarrow> [zero_theta] ! b = zero_theta \<Longrightarrow>
              out ! b ! i ! j = sample_px (img4 ! b) (int 4 - 1) (int 4 - 1) 0 0 \<and>
              out ! b ! i ! j = out ! b ! 0 ! 0"
    using degenerate_theta_total[OF wf h h l, of 4 4] by blast
  have "out ! 0 ! 3 ! 2 = sample_px (img4 ! 0) (int 4 - 1) (int 4 - 1) 0 0 \<and>
      out ! 0 ! 3 ! 2 = out ! 0 ! 0 ! 0"
    by (rule a) simp_all
  then show ?thesis using wf l z o by blast
qed

text \<open>
  No clip to an edge: for the 4x4 image and the all-zero matrix every corner index comes
  unchanged out of the clip, as (1, 1) with its neighbours, and every output pixel is 5,
  the value of the interior pixel (1, 1).
\<close>

theorem degenerate_theta_counterexample:
  "tmap floor (xs (sampler_corners img4
      (map (\<lambda>g. g ! 0) (affine_grid_generator 4 4 [zero_theta]))
      (map (\<lambda>g. g ! 1) (affine_grid_generator 4 4 [zero_theta])))) =
     [[[1, 1, 1, 1], [1, 1, 1, 1], [1, 1, 1, 1], [1, 1, 1, 1]]] \<and>
   x0 (sampler_corners img4
      (map (\<lambda>g. g ! 0) (affine_grid_generator 4 4 [zero_theta]))
      (map (\<lambda>g. g ! 1) (affine_grid_generator 4 4 [zero_theta]))) =
     [[[1, 1, 1, 1], [1, 1, 1, 1], [1, 1, 1, 1], [1, 1, 1, 1]]] \<and>
   y0 (sampler_corners img4
      (map (\<lambda>g. g ! 0) (affine_grid_generator 4 4 [zero_theta]))
      (map (\<lambda>g. g ! 1) (affine_grid_generator 4 4 [zero_theta]))) =
     [[[1, 1, 1, 1], [1, 1, 1, 1], [1, 1, 1, 1], [1, 1, 1, 1]]] \<and>
   transform 4 4 img4 [zero_theta] =
     Inr [[[[5], [5], [5], [5]], [[5], [5], [5], [5]], [[5], [5], [5], [5]], [[5], [5], [5], [5]]]] \<and>
   img4 ! 0 ! 1 ! 1 = [5]"
  by (simp add: eval_defs img4_def zero_theta_def upt_rec)

section \<open>Batch independence\<close>

text \<open>
  C9. For an image batch of height and width at least 1 and one matrix per image,
  stacking the (image, theta) pairs in the order of a permutation \<open>p\<close> of the batch indices
  permutes the output of the pipeline by \<open>p\<close>; and output element \<open>b\<close> of the batch is the
  output of the pipeline on image \<open>b\<close> and matrix \<open>b\<close> alone.
\<close>

theorem batch_permutation:
  assumes "is_image_batch img B H W C" and "1 \<le> H" and "1 \<le> W" and "length theta = B"
    and "mset p = mset [0..<B]"
  shows "\<exists>out. transform h w img theta = Inr out \<and> length out = B \<and>
           transform h w (map ((!) img) p) (map ((!) theta) p) = Inr (map ((!) out) p) \<and>
           (\<forall>b<B. transform h w [img ! b] [theta ! b] = Inr [out ! b])"
proof (intro exI conjI allI impI)
  let ?out = "sampler_out img (map (grid_x h w) theta) (map (grid_y h w) theta)"
  have le: "length theta \<le> B" using assms(4) by simp
  show "transform h w img theta = Inr ?out"
    using assms(1-3) le by (rule transform_ok)
  show "length ?out = B"
    using transform_out_shape[of img h w theta] assms(4)
    by (metis length_map length_replicate shape3_def)
  have "set p = set [0..<B]" using assms(5) by (rule mset_eq_setD)
  then have p: "set p \<subseteq> {..<B}" by auto
  show "transform h w (map ((!) img) p) (map ((!) theta) p) = Inr (map ((!) ?out) p)"
    using assms(1-4) p by (rule transform_select)
  fix b assume "b < B"
  then have "set [b] \<subseteq> {..<B}" by simp
  from transform_select[OF assms(1-4) this, of h w]
  show "transform h w [img ! b] [theta ! b] = Inr [?out ! b]" by simp
qed

theorem batch_permutation_witness:
  "is_image_batch img3x2 2 3 3 1 \<and> length [zero_theta, identity_theta] = 2 \<and>
   mset [1, 0] = mset [0..<2] \<and>
   (\<exists>out. transform 2 2 img3x2 [zero_theta, identity_theta] = Inr out \<and>
      transform 2 2 (map ((!) img3x2) [1, 0]) (map ((!) [zero_theta, identity_theta]) [1, 0])
        = Inr (map ((!) out) [1, 0]))"
proof -
  have wf: "is_image_batch img3x2 2 3 3 1" by (simp add: is_image_batch_def img3x2_def)
  have h: "(1 :: nat) \<le> 3" by simp
  have l: "length [zero_theta, identity_theta] = 2" by simp
  have m: "mset [1, 0] = mset [0..<2]" by (simp add: upt_rec)
  have "\<exists>out. transform 2 2 img3x2 [zero_theta, identity_theta] = Inr out \<and>
      transform 2 2 (map ((!) img3x2) [1, 0]) (map ((!) [zero_theta, identity_theta]) [1, 0])
        = Inr (map ((!) out) [1, 0])"
    using batch_permutation[OF wf h h l m, of 2 2] by blast
  then show ?thesis using wf l m by blast
qed

end
